theory Spec2Isabelle
  imports Main
begin

section \<open>The DataVic DCAT JSON harvester\<close>

text \<open>
  A shallow embedding of \<^verbatim>\<open>ckanext/datavic_harvester/harvesters/_json.py\<close>
  (class \<^verbatim>\<open>DataVicDCATJSONHarvester\<close>).

  \<^item> \<^verbatim>\<open>validate_config\<close> works on one object graph that it has just parsed and that
    nothing else refers to, so it is modelled on JSON trees with functional update.
  \<^item> \<^verbatim>\<open>_get_package_dict\<close> and its helpers mutate one shared dictionary and store
    references to parts of the source record and of the harvest configuration in it, so
    they are modelled on an explicit store of objects, with every raise of the Python
    as an \<open>Inl\<close> result.
  \<^item> Code of other packages (\<^verbatim>\<open>json\<close>, \<^verbatim>\<open>bs4\<close>, \<^verbatim>\<open>ckan\<close>, \<^verbatim>\<open>ckanext.dcat\<close>,
    \<^verbatim>\<open>ckanext.harvest\<close>) and the modules \<^verbatim>\<open>bs4_helpers\<close> and \<^verbatim>\<open>helpers\<close>, which the
    file imports, are parameters: the fields of the record \<open>host\<close>.
  \<^item> JSON numbers are restricted to integers.
\<close>

subsection \<open>Exceptions and JSON trees\<close>

datatype error =
    ValueError string
  | TypeError
  | KeyError
  | AttributeError
  | IndexError
  | UnboundLocalError
  | RecursionError
  | NotFound
  | HostError string

text \<open>What \<^verbatim>\<open>str(ex)\<close> gives for the two log lines of \<^verbatim>\<open>generate_extract\<close>.\<close>

fun str_of_error :: "error \<Rightarrow> string" where
  "str_of_error (ValueError m) = m"
| "str_of_error (HostError m) = m"
| "str_of_error TypeError = ''TypeError''"
| "str_of_error KeyError = ''KeyError''"
| "str_of_error AttributeError = ''AttributeError''"
| "str_of_error IndexError = ''IndexError''"
| "str_of_error UnboundLocalError = ''UnboundLocalError''"
| "str_of_error RecursionError = ''RecursionError''"
| "str_of_error NotFound = ''NotFound''"

text \<open>
  The value \<^verbatim>\<open>json.loads\<close> returns, as a tree. A dictionary is an association list in
  insertion order, each key once.
\<close>

datatype json =
    JNull
  | JBool bool
  | JInt int
  | JStr string
  | JList "json list"
  | JDict "(string \<times> json) list"

subsection \<open>Python operations on strings\<close>

text \<open>\<^verbatim>\<open>sub in s\<close> for two strings.\<close>

fun str_contains :: "string \<Rightarrow> string \<Rightarrow> bool" where
  "str_contains sub [] = (sub = [])"
| "str_contains sub (c # cs) = (take (length sub) (c # cs) = sub \<or> str_contains sub cs)"

text \<open>\<^verbatim>\<open>s.index(c)\<close> for a one-character needle: \<open>None\<close> is the ValueError.\<close>

fun str_index :: "char \<Rightarrow> string \<Rightarrow> nat option" where
  "str_index c [] = None"
| "str_index c (x # xs) =
     (if x = c then Some 0 else (case str_index c xs of None \<Rightarrow> None | Some i \<Rightarrow> Some (Suc i)))"

text \<open>\<^verbatim>\<open>s.replace('&', 'and')\<close>.\<close>

fun replace_amp :: "string \<Rightarrow> string" where
  "replace_amp [] = []"
| "replace_amp (c # cs) = (if c = CHR ''&'' then ''and'' @ replace_amp cs else c # replace_amp cs)"

subsection \<open>Python operations on JSON trees\<close>

text \<open>\<^verbatim>\<open>key in obj\<close> for a string \<open>key\<close>: a key of a dict, an element of a list, a
  substring of a string; any other operand is not iterable.\<close>

fun j_contains :: "string \<Rightarrow> json \<Rightarrow> error + bool" where
  "j_contains k (JDict d) = Inr (k \<in> set (map fst d))"
| "j_contains k (JList xs) = Inr (JStr k \<in> set xs)"
| "j_contains k (JStr s) = Inr (str_contains k s)"
| "j_contains k _ = Inl TypeError"

text \<open>\<^verbatim>\<open>obj[key]\<close> for a string \<open>key\<close>.\<close>

fun j_getitem :: "json \<Rightarrow> string \<Rightarrow> error + json" where
  "j_getitem (JDict d) k = (case map_of d k of None \<Rightarrow> Inl KeyError | Some v \<Rightarrow> Inr v)"
| "j_getitem _ k = Inl TypeError"

text \<open>\<^verbatim>\<open>d[key] = v\<close> on an association list: an existing key keeps its place.\<close>

fun dict_set :: "string \<Rightarrow> 'v \<Rightarrow> (string \<times> 'v) list \<Rightarrow> (string \<times> 'v) list" where
  "dict_set k v [] = [(k, v)]"
| "dict_set k v ((k', v') # d) = (if k' = k then (k, v) # d else (k', v') # dict_set k v d)"

fun j_is_str :: "json \<Rightarrow> bool" where
  "j_is_str (JStr s) = True"
| "j_is_str _ = False"

subsection \<open>The collaborators\<close>

text \<open>
  \<^item> \<open>json_loads\<close>: \<^verbatim>\<open>json.loads\<close>; \<open>Inl m\<close> is the decode error with message \<open>m\<close>,
    which is a \<^verbatim>\<open>ValueError\<close>.
  \<^item> \<open>json_dumps\<close>: \<^verbatim>\<open>json.dumps(obj, indent=1)\<close>.
  \<^item> \<open>group_show\<close>: \<^verbatim>\<open>get_action('group_show')(context, {'id': x})\<close> as a function
    of \<open>x\<close>; \<open>Inl NotFound\<close> is \<^verbatim>\<open>ckan.logic.NotFound\<close>.
\<close>

record host =
  json_loads :: "string \<Rightarrow> string + json"
  json_dumps :: "json \<Rightarrow> string"
  group_show :: "json \<Rightarrow> error + json"

subsection \<open>validate_config\<close>

text \<open>
  The loop over \<^verbatim>\<open>config_obj['default_groups']\<close>; \<open>acc\<close> is
  \<^verbatim>\<open>config_obj['default_group_dicts']\<close> so far. Only \<^verbatim>\<open>NotFound\<close> is caught.
\<close>

fun lookup_default_groups :: "host \<Rightarrow> json list \<Rightarrow> json list \<Rightarrow> error + json list" where
  "lookup_default_groups h [] acc = Inr acc"
| "lookup_default_groups h (group_name_or_id # rest) acc =
     (case group_show h group_name_or_id of
        Inl NotFound \<Rightarrow> Inl (ValueError ''Default group not found'')
      | Inl e \<Rightarrow> Inl e
      | Inr grp \<Rightarrow>
          (case j_getitem grp ''id'' of
             Inl e \<Rightarrow> Inl e
           | Inr gid \<Rightarrow>
               (case j_getitem grp ''name'' of
                  Inl e \<Rightarrow> Inl e
                | Inr gname \<Rightarrow>
                    lookup_default_groups h rest
                      (acc @ [JDict [(''id'', gid), (''name'', gname)]]))))"

definition validate_config :: "host \<Rightarrow> string \<Rightarrow> error + string" where
  "validate_config h config =
     (if config = [] then Inr config
      else
        (case json_loads h config of
           Inl msg \<Rightarrow> Inl (ValueError msg)
         | Inr config_obj \<Rightarrow>
             (case j_contains ''default_groups'' config_obj of
                Inl e \<Rightarrow> Inl e
              | Inr False \<Rightarrow> Inr config
              | Inr True \<Rightarrow>
                  (case j_getitem config_obj ''default_groups'' of
                     Inl e \<Rightarrow> Inl e
                   | Inr (JList default_groups) \<Rightarrow>
                       (if default_groups \<noteq> [] \<and> \<not> j_is_str (hd default_groups)
                        then Inl (ValueError
                          ''default_groups must be a list of group names/ids (i.e. strings)'')
                        else
                          (case lookup_default_groups h default_groups [] of
                             Inl e \<Rightarrow> Inl e
                           | Inr default_group_dicts \<Rightarrow>
                               (case config_obj of
                                  JDict d \<Rightarrow>
                                    Inr (json_dumps h (JDict
                                      (dict_set ''default_group_dicts'' (JList default_group_dicts) d)))
                                | _ \<Rightarrow> Inl TypeError)))
                   | Inr _ \<Rightarrow>
                       Inl (ValueError ''default_groups must be a *list* of group names/ids'')))))"

subsection \<open>The store\<close>

text \<open>
  A Python value is \<^verbatim>\<open>None\<close>, a boolean, an integer, a string or a reference to a
  dictionary or a list in the store. Two references are the same object exactly when
  their addresses are equal.
\<close>

type_synonym addr = nat

datatype val = VNone | VBool bool | VInt int | VStr string | VRef addr

datatype obj = ODict "(string \<times> val) list" | OList "val list"

type_synonym heap = "addr \<Rightarrow> obj option"

record state =
  heap :: heap
  nxt :: addr
  log :: "string list"

text \<open>
  A statement runs from a state to a result and a state; a raised exception keeps the
  state it was raised in.
\<close>

type_synonym 'a py = "state \<Rightarrow> (error + 'a) \<times> state"

definition py_return :: "'a \<Rightarrow> 'a py" where
  "py_return x = (\<lambda>s. (Inr x, s))"

definition py_raise :: "error \<Rightarrow> 'a py" where
  "py_raise e = (\<lambda>s. (Inl e, s))"

definition py_bind :: "'a py \<Rightarrow> ('a \<Rightarrow> 'b py) \<Rightarrow> 'b py" where
  "py_bind m f = (\<lambda>s. case m s of (Inl e, s') \<Rightarrow> (Inl e, s') | (Inr x, s') \<Rightarrow> f x s')"

text \<open>An expression that only reads the store.\<close>

definition py_read :: "(heap \<Rightarrow> error + 'a) \<Rightarrow> 'a py" where
  "py_read f = (\<lambda>s. (f (heap s), s))"

text \<open>A call of a collaborator that does not touch the store.\<close>

definition py_call :: "error + 'a \<Rightarrow> 'a py" where
  "py_call r = (\<lambda>s. (r, s))"

text \<open>\<^verbatim>\<open>log.error(msg)\<close>.\<close>

definition log_error :: "string \<Rightarrow> unit py" where
  "log_error msg = (\<lambda>s. (Inr (), s\<lparr>log := log s @ [msg]\<rparr>))"

text \<open>A new object, at the next free address.\<close>

definition py_new :: "obj \<Rightarrow> val py" where
  "py_new ob = (\<lambda>s. (Inr (VRef (nxt s)), s\<lparr>heap := (heap s)(nxt s \<mapsto> ob), nxt := Suc (nxt s)\<rparr>))"

text \<open>A reference to no object cannot arise in Python; the model reports it.\<close>

definition dangling :: error where
  "dangling = HostError ''dangling reference''"

text \<open>\<^verbatim>\<open>bool(v)\<close>.\<close>

fun py_truthy :: "heap \<Rightarrow> val \<Rightarrow> error + bool" where
  "py_truthy H VNone = Inr False"
| "py_truthy H (VBool b) = Inr b"
| "py_truthy H (VInt i) = Inr (i \<noteq> 0)"
| "py_truthy H (VStr s) = Inr (s \<noteq> [])"
| "py_truthy H (VRef a) =
     (case H a of
        None \<Rightarrow> Inl dangling
      | Some (ODict d) \<Rightarrow> Inr (d \<noteq> [])
      | Some (OList xs) \<Rightarrow> Inr (xs \<noteq> []))"

text \<open>\<^verbatim>\<open>key in v\<close> for a string \<open>key\<close>.\<close>

fun py_contains :: "heap \<Rightarrow> string \<Rightarrow> val \<Rightarrow> error + bool" where
  "py_contains H k (VStr s) = Inr (str_contains k s)"
| "py_contains H k (VRef a) =
     (case H a of
        None \<Rightarrow> Inl dangling
      | Some (ODict d) \<Rightarrow> Inr (k \<in> set (map fst d))
      | Some (OList xs) \<Rightarrow> Inr (VStr k \<in> set xs))"
| "py_contains H k _ = Inl TypeError"

text \<open>\<^verbatim>\<open>v[key]\<close> for a string \<open>key\<close>.\<close>

fun py_getitem :: "heap \<Rightarrow> val \<Rightarrow> string \<Rightarrow> error + val" where
  "py_getitem H (VRef a) k =
     (case H a of
        None \<Rightarrow> Inl dangling
      | Some (ODict d) \<Rightarrow> (case map_of d k of None \<Rightarrow> Inl KeyError | Some v \<Rightarrow> Inr v)
      | Some (OList xs) \<Rightarrow> Inl TypeError)"
| "py_getitem H _ k = Inl TypeError"

text \<open>\<^verbatim>\<open>v.get(key, default)\<close>: only a dictionary has the method.\<close>

fun py_get :: "heap \<Rightarrow> val \<Rightarrow> string \<Rightarrow> val \<Rightarrow> error + val" where
  "py_get H (VRef a) k dflt =
     (case H a of
        None \<Rightarrow> Inl dangling
      | Some (ODict d) \<Rightarrow> (case map_of d k of None \<Rightarrow> Inr dflt | Some v \<Rightarrow> Inr v)
      | Some (OList xs) \<Rightarrow> Inl AttributeError)"
| "py_get H _ k dflt = Inl AttributeError"

text \<open>The elements a \<^verbatim>\<open>for\<close> loop or a comprehension visits.\<close>

fun py_iter :: "heap \<Rightarrow> val \<Rightarrow> error + val list" where
  "py_iter H (VStr s) = Inr (map (\<lambda>c. VStr [c]) s)"
| "py_iter H (VRef a) =
     (case H a of
        None \<Rightarrow> Inl dangling
      | Some (ODict d) \<Rightarrow> Inr (map (\<lambda>kv. VStr (fst kv)) d)
      | Some (OList xs) \<Rightarrow> Inr xs)"
| "py_iter H _ = Inl TypeError"

text \<open>\<^verbatim>\<open>isinstance(v, list)\<close>.\<close>

fun py_is_list :: "heap \<Rightarrow> val \<Rightarrow> error + bool" where
  "py_is_list H (VRef a) =
     (case H a of
        None \<Rightarrow> Inl dangling
      | Some (ODict d) \<Rightarrow> Inr False
      | Some (OList xs) \<Rightarrow> Inr True)"
| "py_is_list H _ = Inr False"

text \<open>\<^verbatim>\<open>v[0]\<close>.\<close>

fun py_first :: "heap \<Rightarrow> val \<Rightarrow> error + val" where
  "py_first H (VStr s) = (case s of [] \<Rightarrow> Inl IndexError | c # cs \<Rightarrow> Inr (VStr [c]))"
| "py_first H (VRef a) =
     (case H a of
        None \<Rightarrow> Inl dangling
      | Some (ODict d) \<Rightarrow> Inl KeyError
      | Some (OList xs) \<Rightarrow> (case xs of [] \<Rightarrow> Inl IndexError | x # rest \<Rightarrow> Inr x))"
| "py_first H _ = Inl TypeError"

text \<open>\<^verbatim>\<open>v[key] = x\<close> for a string \<open>key\<close>.\<close>

fun py_setitem :: "val \<Rightarrow> string \<Rightarrow> val \<Rightarrow> unit py" where
  "py_setitem (VRef a) k x =
     (\<lambda>s. case heap s a of
        None \<Rightarrow> (Inl dangling, s)
      | Some (ODict d) \<Rightarrow> (Inr (), s\<lparr>heap := (heap s)(a \<mapsto> ODict (dict_set k x d))\<rparr>)
      | Some (OList xs) \<Rightarrow> (Inl TypeError, s))"
| "py_setitem _ k x = py_raise TypeError"

text \<open>\<^verbatim>\<open>v.extend(ys)\<close>: only a list has the method.\<close>

fun py_extend :: "val \<Rightarrow> val list \<Rightarrow> unit py" where
  "py_extend (VRef a) ys =
     (\<lambda>s. case heap s a of
        None \<Rightarrow> (Inl dangling, s)
      | Some (ODict d) \<Rightarrow> (Inl AttributeError, s)
      | Some (OList xs) \<Rightarrow> (Inr (), s\<lparr>heap := (heap s)(a \<mapsto> OList (xs @ ys))\<rparr>))"
| "py_extend _ ys = py_raise AttributeError"

subsection \<open>Loading a JSON tree into the store\<close>

text \<open>
  \<^verbatim>\<open>json.loads\<close> builds new objects only: every list and dictionary of the tree gets
  an address of its own, the parts before the whole.
\<close>

fun alloc :: "json \<Rightarrow> state \<Rightarrow> val \<times> state"
  and alloc_list :: "json list \<Rightarrow> state \<Rightarrow> val list \<times> state"
  and alloc_dict :: "(string \<times> json) list \<Rightarrow> state \<Rightarrow> (string \<times> val) list \<times> state" where
  "alloc JNull s = (VNone, s)"
| "alloc (JBool b) s = (VBool b, s)"
| "alloc (JInt i) s = (VInt i, s)"
| "alloc (JStr x) s = (VStr x, s)"
| "alloc (JList xs) s =
     (case alloc_list xs s of (vs, s') \<Rightarrow>
        (VRef (nxt s'), s'\<lparr>heap := (heap s')(nxt s' \<mapsto> OList vs), nxt := Suc (nxt s')\<rparr>))"
| "alloc (JDict d) s =
     (case alloc_dict d s of (kvs, s') \<Rightarrow>
        (VRef (nxt s'), s'\<lparr>heap := (heap s')(nxt s' \<mapsto> ODict kvs), nxt := Suc (nxt s')\<rparr>))"
| "alloc_list [] s = ([], s)"
| "alloc_list (x # xs) s =
     (case alloc x s of (v, s1) \<Rightarrow>
        (case alloc_list xs s1 of (vs, s2) \<Rightarrow> (v # vs, s2)))"
| "alloc_dict [] s = ([], s)"
| "alloc_dict (kx # d) s =
     (case alloc (snd kx) s of (v, s1) \<Rightarrow>
        (case alloc_dict d s1 of (kvs, s2) \<Rightarrow> ((fst kx, v) # kvs, s2)))"

definition py_alloc :: "json \<Rightarrow> val py" where
  "py_alloc j = (\<lambda>s. case alloc j s of (v, s') \<Rightarrow> (Inr v, s'))"

subsection \<open>Equality of values\<close>

text \<open>
  \<^verbatim>\<open>x == y\<close>. A boolean equals the integer 0 or 1 it stands for; two lists are equal when
  their elements are, in order; two dictionaries when they have the same keys with equal
  values. The same object equals itself. The first argument bounds the depth of the
  comparison, as the interpreter's recursion limit does.
\<close>

fun int_of_val :: "val \<Rightarrow> int option" where
  "int_of_val (VBool b) = Some (if b then 1 else 0)"
| "int_of_val (VInt i) = Some i"
| "int_of_val _ = None"

fun py_eq :: "nat \<Rightarrow> heap \<Rightarrow> val \<Rightarrow> val \<Rightarrow> error + bool"
  and py_eq_list :: "nat \<Rightarrow> heap \<Rightarrow> val list \<Rightarrow> val list \<Rightarrow> error + bool"
  and py_eq_dict :: "nat \<Rightarrow> heap \<Rightarrow> (string \<times> val) list \<Rightarrow> (string \<times> val) list \<Rightarrow> error + bool" where
  "py_eq n H VNone y = Inr (y = VNone)"
| "py_eq n H (VStr x) y = Inr (y = VStr x)"
| "py_eq n H (VBool b) y = Inr (int_of_val y = Some (if b then 1 else 0))"
| "py_eq n H (VInt i) y = Inr (int_of_val y = Some i)"
| "py_eq n H (VRef a) VNone = Inr False"
| "py_eq n H (VRef a) (VStr y) = Inr False"
| "py_eq n H (VRef a) (VBool y) = Inr False"
| "py_eq n H (VRef a) (VInt y) = Inr False"
| "py_eq 0 H (VRef a) (VRef b) = (if a = b then Inr True else Inl RecursionError)"
| "py_eq (Suc n) H (VRef a) (VRef b) =
     (if a = b then Inr True
      else
        (case (H a, H b) of
           (Some (OList xs), Some (OList ys)) \<Rightarrow>
             (if length xs = length ys then py_eq_list n H xs ys else Inr False)
         | (Some (ODict d), Some (ODict e)) \<Rightarrow>
             (if length d = length e then py_eq_dict n H d e else Inr False)
         | (Some (OList xs), Some (ODict e)) \<Rightarrow> Inr False
         | (Some (ODict d), Some (OList ys)) \<Rightarrow> Inr False
         | _ \<Rightarrow> Inl dangling))"
| "py_eq_list n H [] ys = Inr (ys = [])"
| "py_eq_list n H (x # xs) [] = Inr False"
| "py_eq_list n H (x # xs) (y # ys) =
     (case py_eq n H x y of
        Inl e \<Rightarrow> Inl e
      | Inr False \<Rightarrow> Inr False
      | Inr True \<Rightarrow> py_eq_list n H xs ys)"
| "py_eq_dict n H [] e = Inr True"
| "py_eq_dict n H (kv # d) e =
     (case map_of e (fst kv) of
        None \<Rightarrow> Inr False
      | Some w \<Rightarrow>
          (case py_eq n H (snd kv) w of
             Inl e' \<Rightarrow> Inl e'
           | Inr False \<Rightarrow> Inr False
           | Inr True \<Rightarrow> py_eq_dict n H d e))"

definition recursion_limit :: nat where
  "recursion_limit = 1000"

text \<open>\<^verbatim>\<open>x in ys\<close> for a list \<open>ys\<close> of values.\<close>

fun py_in :: "heap \<Rightarrow> val \<Rightarrow> val list \<Rightarrow> error + bool" where
  "py_in H x [] = Inr False"
| "py_in H x (y # ys) =
     (case py_eq recursion_limit H y x of
        Inl e \<Rightarrow> Inl e
      | Inr True \<Rightarrow> Inr True
      | Inr False \<Rightarrow> py_in H x ys)"

subsection \<open>The collaborators of the conversion\<close>

text \<open>
  \<^item> \<open>dcat_to_ckan\<close>: \<^verbatim>\<open>ckanext.dcat.converters.dcat_to_ckan\<close>. It reads the source
    record and builds the dataset dictionary out of new objects, so it is a function
    from the tree of the record to the tree of the dictionary.
  \<^item> \<open>harvest_source_config\<close>: \<^verbatim>\<open>HarvestSource.get(id).config\<close>; \<open>Inl\<close> when either
    step raises or there is no string to parse.
  \<^item> \<open>BeautifulSoup\<close>: \<^verbatim>\<open>BeautifulSoup(x, 'html.parser')\<close>. \<open>'soup\<close> is the state of
    the parsed document, which the helpers of \<^verbatim>\<open>bs4_helpers\<close> change in place.
  \<^item> \<open>soup_get_text\<close> and \<open>soup_str\<close>: \<^verbatim>\<open>soup.get_text()\<close> and \<^verbatim>\<open>str(soup)\<close>.
  \<^item> \<open>remove_all_attrs_except_saving\<close>, \<open>unwrap_all_except\<close>, \<open>extract_metadata_url\<close>,
    \<open>fetch_update_frequency\<close>: the functions of \<^verbatim>\<open>bs4_helpers\<close> of these names;
    \<open>unwrap_all_except\<close> gives the value stored as the notes and the document it leaves.
  \<^item> \<open>convert_date_to_isoformat\<close>: the function of \<^verbatim>\<open>helpers\<close>.
  A collaborator sees of a list or dictionary only its reference.
\<close>

record 'soup harvest_host = host +
  dcat_to_ckan :: "json \<Rightarrow> error + json"
  harvest_source_config :: "string \<Rightarrow> error + string"
  BeautifulSoup :: "val \<Rightarrow> error + 'soup"
  soup_get_text :: "'soup \<Rightarrow> error + string"
  soup_str :: "'soup \<Rightarrow> string"
  remove_all_attrs_except_saving :: "'soup \<Rightarrow> error + 'soup"
  unwrap_all_except :: "'soup \<Rightarrow> string list \<Rightarrow> error + val \<times> 'soup"
  extract_metadata_url :: "'soup \<Rightarrow> val \<Rightarrow> error + val"
  fetch_update_frequency :: "val \<Rightarrow> error + val"
  convert_date_to_isoformat :: "val \<Rightarrow> error + val"

record harvest_object =
  content :: string
  harvest_source_id :: string

subsection \<open>fix_erroneous_tags\<close>

text \<open>The body of the loop, for one \<open>tag\<close>.\<close>

definition fix_tag :: "val \<Rightarrow> unit py" where
  "fix_tag tag =
     py_bind (py_read (\<lambda>H. py_contains H ''name'' tag)) (\<lambda>has_name.
       if \<not> has_name then py_return ()
       else
         py_bind (py_read (\<lambda>H. py_getitem H tag ''name'')) (\<lambda>name.
         py_bind (py_read (\<lambda>H. py_contains H [CHR ''&''] name)) (\<lambda>has_amp.
           if \<not> has_amp then py_return ()
           else
             (case name of
                VStr n \<Rightarrow> py_setitem tag ''name'' (VStr (replace_amp n))
              | _ \<Rightarrow> py_raise AttributeError))))"

fun fix_tags :: "val list \<Rightarrow> unit py" where
  "fix_tags [] = py_return ()"
| "fix_tags (tag # tags) = py_bind (fix_tag tag) (\<lambda>_. fix_tags tags)"

definition fix_erroneous_tags :: "val \<Rightarrow> unit py" where
  "fix_erroneous_tags package_dict =
     py_bind (py_read (\<lambda>H. py_getitem H package_dict ''tags'')) (\<lambda>tags.
     py_bind (py_read (\<lambda>H. py_truthy H tags)) (\<lambda>nonempty.
       if \<not> nonempty then py_return ()
       else py_bind (py_read (\<lambda>H. py_iter H tags)) fix_tags))"

subsection \<open>generate_extract and set_description_and_extract\<close>

text \<open>
  When \<^verbatim>\<open>soup.get_text()\<close> raises, the handler logs and the \<^verbatim>\<open>return notes\<close> after it
  finds \<open>notes\<close> unbound. When the text has no full stop, \<^verbatim>\<open>notes.index('.')\<close> raises
  \<^verbatim>\<open>ValueError('substring not found')\<close>, the handler logs and \<open>notes\<close> is still the
  whole text.
\<close>

definition generate_extract :: "('soup, 'x) harvest_host_scheme \<Rightarrow> 'soup \<Rightarrow> val py" where
  "generate_extract h soup =
     (case soup_get_text h soup of
        Inl ex \<Rightarrow>
          py_bind (log_error (''Generate extract error for: '' @ soup_str h soup)) (\<lambda>_.
          py_bind (log_error (str_of_error ex)) (\<lambda>_.
          py_raise UnboundLocalError))
      | Inr notes \<Rightarrow>
          (case str_index CHR ''.'' notes of
             None \<Rightarrow>
               py_bind (log_error (''Generate extract error for: '' @ soup_str h soup)) (\<lambda>_.
               py_bind (log_error (str_of_error (ValueError ''substring not found''))) (\<lambda>_.
               py_return (VStr notes)))
           | Some index \<Rightarrow> py_return (VStr (take (index + 1) notes))))"

text \<open>The result is the document as the helpers left it.\<close>

definition set_description_and_extract ::
    "('soup, 'x) harvest_host_scheme \<Rightarrow> val \<Rightarrow> 'soup \<Rightarrow> 'soup py" where
  "set_description_and_extract h package_dict soup =
     py_bind (py_read (\<lambda>H. py_getitem H package_dict ''notes'')) (\<lambda>notes.
     py_bind (py_read (\<lambda>H. py_contains H ''default.description'' notes)) (\<lambda>is_default.
       if is_default then
         py_bind (py_setitem package_dict ''notes''
                    (VStr ''No description has been entered for this dataset.'')) (\<lambda>_.
         py_bind (py_setitem package_dict ''extract''
                    (VStr ''No abstract has been entered for this dataset.'')) (\<lambda>_.
         py_return soup))
       else
         py_bind (py_call (remove_all_attrs_except_saving h soup)) (\<lambda>soup1.
         py_bind (py_call (unwrap_all_except h soup1 [''a'', ''br''])) (\<lambda>r.
         py_bind (py_setitem package_dict ''notes'' (fst r)) (\<lambda>_.
         py_bind (generate_extract h (snd r)) (\<lambda>extract.
         py_bind (py_setitem package_dict ''extract'' extract) (\<lambda>_.
         py_return (snd r))))))))"

subsection \<open>The extras with a given key\<close>

text \<open>\<^verbatim>\<open>[extra for extra in extras if extra['key'] == key]\<close>, over the elements visited.\<close>

fun filter_key :: "heap \<Rightarrow> string \<Rightarrow> val list \<Rightarrow> error + val list" where
  "filter_key H key [] = Inr []"
| "filter_key H key (extra # extras) =
     (case py_getitem H extra ''key'' of
        Inl e \<Rightarrow> Inl e
      | Inr k \<Rightarrow>
          (case filter_key H key extras of
             Inl e \<Rightarrow> Inl e
           | Inr found \<Rightarrow> Inr (if k = VStr key then extra # found else found)))"

text \<open>
  \<^verbatim>\<open>[extra for extra in package_dict['extras'] if extra['key'] == key]\<close>.
\<close>

definition extras_with_key :: "heap \<Rightarrow> val \<Rightarrow> string \<Rightarrow> error + val list" where
  "extras_with_key H package_dict key =
     (case py_getitem H package_dict ''extras'' of
        Inl e \<Rightarrow> Inl e
      | Inr extras \<Rightarrow>
          (case py_iter H extras of
             Inl e \<Rightarrow> Inl e
           | Inr xs \<Rightarrow> filter_key H key xs))"

subsection \<open>set_full_metadata_url_and_update_frequency\<close>

text \<open>
  The variable \<^verbatim>\<open>full_metadata_url\<close> first holds the list the comprehension builds, a
  new object, and may end up stored in the dictionary.
\<close>

definition set_full_metadata_url_and_update_frequency ::
    "('soup, 'x) harvest_host_scheme \<Rightarrow> val \<Rightarrow> val \<Rightarrow> 'soup \<Rightarrow> unit py" where
  "set_full_metadata_url_and_update_frequency h harvest_config package_dict soup =
     py_bind (py_read (\<lambda>H. extras_with_key H package_dict ''full_metadata_url'')) (\<lambda>found.
     py_bind (py_new (OList found)) (\<lambda>full_metadata_url0.
     py_bind
       (if found \<noteq> [] then py_return full_metadata_url0
        else
          py_bind (py_read (\<lambda>H. py_contains H ''default_full_metadata_url'' harvest_config))
            (\<lambda>has_default.
          py_bind
            (if has_default
             then py_read (\<lambda>H. py_getitem H harvest_config ''default_full_metadata_url'')
             else py_return full_metadata_url0) (\<lambda>full_metadata_url1.
          py_bind (py_read (\<lambda>H. py_contains H ''full_metadata_url_pattern'' harvest_config))
            (\<lambda>has_pattern.
            if \<not> has_pattern then py_return full_metadata_url1
            else
              py_bind (py_read (\<lambda>H. py_getitem H harvest_config ''full_metadata_url_pattern''))
                (\<lambda>pattern.
              py_bind (py_call (extract_metadata_url h soup pattern)) (\<lambda>desc_full_metadata_url.
              py_bind (py_read (\<lambda>H. py_truthy H desc_full_metadata_url)) (\<lambda>found_in_desc.
                if \<not> found_in_desc then py_return full_metadata_url1
                else
                  py_bind (py_call (fetch_update_frequency h desc_full_metadata_url))
                    (\<lambda>frequency.
                  py_bind (py_setitem package_dict ''update_frequency'' frequency) (\<lambda>_.
                  py_return desc_full_metadata_url)))))))))
       (\<lambda>full_metadata_url.
     py_bind (py_read (\<lambda>H. py_truthy H full_metadata_url)) (\<lambda>nonempty.
       if nonempty then py_setitem package_dict ''full_metadata_url'' full_metadata_url
       else py_return ()))))"

subsection \<open>set_default_group\<close>

text \<open>\<^verbatim>\<open>[g['id'] for g in groups]\<close>.\<close>

fun group_ids :: "heap \<Rightarrow> val list \<Rightarrow> error + val list" where
  "group_ids H [] = Inr []"
| "group_ids H (g # gs) =
     (case py_getitem H g ''id'' of
        Inl e \<Rightarrow> Inl e
      | Inr i \<Rightarrow> (case group_ids H gs of Inl e \<Rightarrow> Inl e | Inr ids \<Rightarrow> Inr (i # ids)))"

text \<open>\<^verbatim>\<open>[g for g in default_group_dicts if g['id'] not in existing_group_ids]\<close>.\<close>

fun new_groups :: "heap \<Rightarrow> val list \<Rightarrow> val list \<Rightarrow> error + val list" where
  "new_groups H existing_group_ids [] = Inr []"
| "new_groups H existing_group_ids (g # gs) =
     (case py_getitem H g ''id'' of
        Inl e \<Rightarrow> Inl e
      | Inr i \<Rightarrow>
          (case py_in H i existing_group_ids of
             Inl e \<Rightarrow> Inl e
           | Inr known \<Rightarrow>
               (case new_groups H existing_group_ids gs of
                  Inl e \<Rightarrow> Inl e
                | Inr rest \<Rightarrow> Inr (if known then rest else g # rest))))"

definition set_default_group :: "val \<Rightarrow> val \<Rightarrow> unit py" where
  "set_default_group harvest_config package_dict =
     py_bind (py_new (OList [])) (\<lambda>empty.
     py_bind (py_read (\<lambda>H. py_get H harvest_config ''default_group_dicts'' empty))
       (\<lambda>default_group_dicts.
     py_bind (py_read (\<lambda>H. py_truthy H default_group_dicts)) (\<lambda>nonempty.
     py_bind (py_read (\<lambda>H. py_is_list H default_group_dicts)) (\<lambda>is_list.
       if \<not> (nonempty \<and> is_list) then py_return ()
       else
         py_bind (py_read (\<lambda>H. py_first H default_group_dicts)) (\<lambda>category.
         py_bind (py_read (\<lambda>H. py_truthy H category)) (\<lambda>has_category.
         py_bind
           (if has_category
            then py_bind (py_read (\<lambda>H. py_get H category ''id'' VNone))
                   (py_setitem package_dict ''category'')
            else py_return ()) (\<lambda>_.
         py_bind (py_read (\<lambda>H. py_contains H ''groups'' package_dict)) (\<lambda>has_groups.
         py_bind
           (if \<not> has_groups
            then py_bind (py_new (OList [])) (py_setitem package_dict ''groups'')
            else py_return ()) (\<lambda>_.
         py_bind (py_read (\<lambda>H. py_getitem H package_dict ''groups'')) (\<lambda>groups0.
         py_bind (py_read (\<lambda>H. py_iter H groups0)) (\<lambda>existing.
         py_bind (py_read (\<lambda>H. group_ids H existing)) (\<lambda>existing_group_ids.
         py_bind (py_read (\<lambda>H. py_getitem H package_dict ''groups'')) (\<lambda>groups.
         py_bind (py_read (\<lambda>H. py_is_list H groups)) (\<lambda>has_extend.
           if \<not> has_extend then py_raise AttributeError
           else
             py_bind (py_read (\<lambda>H. py_iter H default_group_dicts)) (\<lambda>defaults.
             py_bind (py_read (\<lambda>H. new_groups H existing_group_ids defaults)) (\<lambda>added.
             py_extend groups added))))))))))))))))"

subsection \<open>set_required_fields_defaults\<close>

text \<open>
  One of the six blocks of the shape
  \<^verbatim>\<open>xs = [extra for extra in package_dict['extras'] if extra['key'] == key]\<close>,
  \<^verbatim>\<open>if not xs: package_dict[key] = default\<close>.
\<close>

definition set_default_field :: "val \<Rightarrow> string \<Rightarrow> string \<Rightarrow> unit py" where
  "set_default_field package_dict key dflt =
     py_bind (py_read (\<lambda>H. extras_with_key H package_dict key)) (\<lambda>found.
       if found = [] then py_setitem package_dict key (VStr dflt) else py_return ())"

text \<open>
  One of the two blocks for \<^verbatim>\<open>issued\<close> and \<^verbatim>\<open>modified\<close>:
  \<^verbatim>\<open>x = dcat_dict.get(src)\<close>, the extras with key \<open>key\<close>, and
  \<^verbatim>\<open>package_dict[key] = helpers.convert_date_to_isoformat(x)\<close> when \<open>x\<close> is true and
  there are none.
\<close>

definition set_date_field ::
    "('soup, 'x) harvest_host_scheme \<Rightarrow> val \<Rightarrow> val \<Rightarrow> string \<Rightarrow> string \<Rightarrow> unit py" where
  "set_date_field h dcat_dict package_dict src key =
     py_bind (py_read (\<lambda>H. py_get H dcat_dict src VNone)) (\<lambda>x.
     py_bind (py_read (\<lambda>H. extras_with_key H package_dict key)) (\<lambda>found.
     py_bind (py_read (\<lambda>H. py_truthy H x)) (\<lambda>given.
       if given \<and> found = []
       then py_bind (py_call (convert_date_to_isoformat h x)) (py_setitem package_dict key)
       else py_return ())))"

definition set_default_license :: "val \<Rightarrow> val \<Rightarrow> unit py" where
  "set_default_license harvest_config package_dict =
     py_bind (py_read (\<lambda>H. py_get H package_dict ''license_id'' VNone)) (\<lambda>license_id.
     py_bind (py_read (\<lambda>H. py_truthy H license_id)) (\<lambda>has_license.
       if has_license then py_return ()
       else
         py_bind (py_read (\<lambda>H. py_contains H ''default_license'' harvest_config))
           (\<lambda>has_default.
           if \<not> has_default then py_return ()
           else
             py_bind (py_read (\<lambda>H. py_get H harvest_config ''default_license'' VNone))
               (\<lambda>default_license.
             py_bind (py_read (\<lambda>H. py_truthy H default_license)) (\<lambda>nonempty.
               if \<not> nonempty then py_return ()
               else
                 py_bind (py_read (\<lambda>H. py_get H default_license ''id'' VNone))
                   (\<lambda>default_license_id.
                 py_bind (py_read (\<lambda>H. py_get H default_license ''title'' VNone))
                   (\<lambda>default_license_title.
                 py_bind (py_read (\<lambda>H. py_truthy H default_license_id)) (\<lambda>has_id.
                 py_bind
                   (if has_id then py_setitem package_dict ''license_id'' default_license_id
                    else py_return ()) (\<lambda>_.
                 py_bind (py_read (\<lambda>H. py_truthy H default_license_title)) (\<lambda>has_title.
                   if has_title
                   then py_setitem package_dict ''custom_licence_text'' default_license_title
                   else py_return ()))))))))))"

definition set_required_fields_defaults ::
    "('soup, 'x) harvest_host_scheme \<Rightarrow> val \<Rightarrow> val \<Rightarrow> val \<Rightarrow> unit py" where
  "set_required_fields_defaults h harvest_config dcat_dict package_dict =
     py_bind (set_default_field package_dict ''personal_information'' ''no'') (\<lambda>_.
     py_bind (set_default_field package_dict ''access'' ''yes'') (\<lambda>_.
     py_bind (set_default_field package_dict ''protective_marking'' ''official'') (\<lambda>_.
     py_bind (set_default_field package_dict ''update_frequency'' ''unknown'') (\<lambda>_.
     py_bind (set_default_field package_dict ''organization_visibility'' ''current'') (\<lambda>_.
     py_bind (set_default_field package_dict ''workflow_status'' ''draft'') (\<lambda>_.
     py_bind (set_date_field h dcat_dict package_dict ''issued'' ''date_created_data_asset'')
       (\<lambda>_.
     py_bind (set_date_field h dcat_dict package_dict ''modified'' ''date_modified_data_asset'')
       (\<lambda>_.
     py_bind (py_read (\<lambda>H. py_get H dcat_dict ''landingPage'' VNone)) (\<lambda>landing_page.
     py_bind (py_read (\<lambda>H. extras_with_key H package_dict ''full_metadata_url''))
       (\<lambda>full_metadata_url.
     py_bind (py_read (\<lambda>H. py_truthy H landing_page)) (\<lambda>has_landing_page.
     py_bind
       (if has_landing_page \<and> full_metadata_url = []
        then py_setitem package_dict ''full_metadata_url'' landing_page
        else py_return ()) (\<lambda>_.
     py_bind (set_default_license harvest_config package_dict) (\<lambda>_.
     py_bind (py_read (\<lambda>H. py_get H dcat_dict ''keyword'' VNone)) (\<lambda>keywords.
     py_bind (py_read (\<lambda>H. py_truthy H keywords)) (\<lambda>has_keywords.
     py_bind (if has_keywords then py_return keywords else py_new (OList []))
       (py_setitem package_dict ''tag_string''))))))))))))))))"

subsection \<open>_get_package_dict\<close>

text \<open>
  The \<^verbatim>\<open>try\<close> block: any exception on the way to the parsed configuration leaves
  \<^verbatim>\<open>harvest_config = None\<close>.
\<close>

definition load_harvest_config :: "('soup, 'x) harvest_host_scheme \<Rightarrow> harvest_object \<Rightarrow> val py" where
  "load_harvest_config h harvest_object =
     (case harvest_source_config h (harvest_source_id harvest_object) of
        Inl e \<Rightarrow> py_return VNone
      | Inr config \<Rightarrow>
          (case json_loads h config of
             Inl msg \<Rightarrow> py_return VNone
           | Inr config_obj \<Rightarrow> py_alloc config_obj))"

definition get_package_dict ::
    "('soup, 'x) harvest_host_scheme \<Rightarrow> harvest_object \<Rightarrow> (val \<times> val) py" where
  "get_package_dict h harvest_object =
     (case json_loads h (content harvest_object) of
        Inl msg \<Rightarrow> py_raise (ValueError msg)
      | Inr dcat_tree \<Rightarrow>
          py_bind (py_alloc dcat_tree) (\<lambda>dcat_dict.
          py_bind (py_call (dcat_to_ckan h dcat_tree)) (\<lambda>package_tree.
          py_bind (py_alloc package_tree) (\<lambda>package_dict.
          py_bind (load_harvest_config h harvest_object) (\<lambda>harvest_config.
          py_bind (py_read (\<lambda>H. py_getitem H package_dict ''notes'')) (\<lambda>notes.
          py_bind (py_call (BeautifulSoup h notes)) (\<lambda>soup.
          py_bind (set_description_and_extract h package_dict soup) (\<lambda>soup'.
          py_bind (set_full_metadata_url_and_update_frequency h harvest_config package_dict soup')
            (\<lambda>_.
          py_bind (fix_erroneous_tags package_dict) (\<lambda>_.
          py_bind (set_default_group harvest_config package_dict) (\<lambda>_.
          py_bind (set_required_fields_defaults h harvest_config dcat_dict package_dict) (\<lambda>_.
          py_return (package_dict, dcat_dict)))))))))))))"

subsection \<open>Predicates of the statements and example collaborators\<close>

text \<open>The lookup of \<open>g\<close> gives a group with an \<^verbatim>\<open>id\<close> and a \<^verbatim>\<open>name\<close>.\<close>

definition group_found :: "host \<Rightarrow> json \<Rightarrow> bool" where
  "group_found h g =
     (case group_show h g of
        Inl e \<Rightarrow> False
      | Inr grp \<Rightarrow> \<not> isl (j_getitem grp ''id'') \<and> \<not> isl (j_getitem grp ''name''))"

text \<open>
  A valid configuration: the empty string, or a JSON object whose \<^verbatim>\<open>default_groups\<close>, if
  it has one, is a list of strings that each name a group.
\<close>

definition valid_config :: "host \<Rightarrow> string \<Rightarrow> bool" where
  "valid_config h config =
     (config = [] \<or>
      (case json_loads h config of
         Inr (JDict d) \<Rightarrow>
           (case map_of d ''default_groups'' of
              None \<Rightarrow> True
            | Some (JList gs) \<Rightarrow> list_all (\<lambda>g. j_is_str g \<and> group_found h g) gs
            | Some _ \<Rightarrow> False)
       | _ \<Rightarrow> False))"

text \<open>
  Collaborators for the examples: a few configuration strings with the values
  \<^verbatim>\<open>json.loads\<close> gives for them, one existing group, and a stand-in for the printer.
\<close>

definition example_loads :: "string \<Rightarrow> string + json" where
  \<open>example_loads s =
     (if s = ''5'' then Inr (JInt 5)
      else if s = ''{}'' then Inr (JDict [])
      else if s = ''{"default_groups": ["transport"]}''
        then Inr (JDict [(''default_groups'', JList [JStr ''transport''])])
      else if s = ''{"default_groups": ["transport", "missing"]}''
        then Inr (JDict [(''default_groups'', JList [JStr ''transport'', JStr ''missing''])])
      else if s = ''{"default_groups": [5, "missing"]}''
        then Inr (JDict [(''default_groups'', JList [JInt 5, JStr ''missing''])])
      else Inl ''No JSON object could be decoded'')\<close>

definition example_host :: host where
  "example_host =
     \<lparr> json_loads = example_loads,
       json_dumps = (\<lambda>j. ''(the configuration with default_group_dicts)''),
       group_show = (\<lambda>g. if g = JStr ''transport''
                          then Inr (JDict [(''id'', JStr ''g1''), (''name'', JStr ''transport'')])
                          else Inl NotFound) \<rparr>"

text \<open>
  Collaborators for the examples of the conversion. The parsed document is its text;
  the converter is a cut-down \<^verbatim>\<open>dcat_to_ckan\<close>: title, notes, one tag per keyword and
  the extras \<^verbatim>\<open>dcat_issued\<close> and \<^verbatim>\<open>guid\<close>.
\<close>

fun j_get :: "json \<Rightarrow> string \<Rightarrow> json" where
  "j_get (JDict d) k = (case map_of d k of None \<Rightarrow> JNull | Some v \<Rightarrow> v)"
| "j_get _ k = JNull"

definition example_dcat_to_ckan :: "json \<Rightarrow> error + json" where
  "example_dcat_to_ckan dcat =
     Inr (JDict
       [(''title'', j_get dcat ''title''),
        (''notes'', j_get dcat ''description''),
        (''tags'', JList (case j_get dcat ''keyword'' of
                            JList ks \<Rightarrow> map (\<lambda>k. JDict [(''name'', k)]) ks
                          | _ \<Rightarrow> [])),
        (''extras'', JList
           [JDict [(''key'', JStr ''dcat_issued''), (''value'', j_get dcat ''issued'')],
            JDict [(''key'', JStr ''guid''), (''value'', j_get dcat ''identifier'')]])])"

definition example_content :: string where
  \<open>example_content =
     ''{"title": "Roads", "description": "Road data for Victoria", "keyword": ["roads & rail"]}''\<close>

definition example_harvest_loads :: "string \<Rightarrow> string + json" where
  "example_harvest_loads s =
     (if s = example_content
      then Inr (JDict [(''title'', JStr ''Roads''),
                       (''description'', JStr ''Road data for Victoria''),
                       (''keyword'', JList [JStr ''roads & rail''])])
      else example_loads s)"

definition example_harvest_host :: "string harvest_host" where
  "example_harvest_host =
     \<lparr> json_loads = example_harvest_loads,
       json_dumps = (\<lambda>j. ''(the configuration with default_group_dicts)''),
       group_show = (\<lambda>g. Inl NotFound),
       dcat_to_ckan = example_dcat_to_ckan,
       harvest_source_config = (\<lambda>i. if i = ''source-1'' then Inr ''{}'' else Inl KeyError),
       BeautifulSoup = (\<lambda>v. case v of VStr markup \<Rightarrow> Inr markup | _ \<Rightarrow> Inl TypeError),
       soup_get_text = Inr,
       soup_str = (\<lambda>soup. soup),
       remove_all_attrs_except_saving = Inr,
       unwrap_all_except = (\<lambda>soup allowed. Inr (VStr soup, soup)),
       extract_metadata_url = (\<lambda>soup pattern. Inr VNone),
       fetch_update_frequency = (\<lambda>url. Inr (VStr ''unknown'')),
       convert_date_to_isoformat = Inr \<rparr>"

definition example_harvest_object :: harvest_object where
  "example_harvest_object = \<lparr> content = example_content, harvest_source_id = ''source-1'' \<rparr>"

definition empty_state :: state where
  "empty_state = \<lparr> heap = Map.empty, nxt = 0, log = [] \<rparr>"


text \<open>
  What \<^verbatim>\<open>fix_erroneous_tags\<close> makes of a dictionary that it visits as a tag: a name
  that is a string with an ampersand is replaced, everything else stays.
\<close>

definition fixed_dict :: "(string \<times> val) list \<Rightarrow> (string \<times> val) list" where
  "fixed_dict d =
     (case map_of d ''name'' of
        Some (VStr n) \<Rightarrow>
          if CHR ''&'' \<in> set n then dict_set ''name'' (VStr (replace_amp n)) d else d
      | _ \<Rightarrow> d)"

fun fixed_obj :: "obj \<Rightarrow> obj" where
  "fixed_obj (ODict d) = ODict (fixed_dict d)"
| "fixed_obj (OList xs) = OList xs"

text \<open>The store in which the objects referred to in \<open>ts\<close> have been visited as tags.\<close>

definition fixed_heap :: "heap \<Rightarrow> val list \<Rightarrow> heap" where
  "fixed_heap H ts = (\<lambda>a. if VRef a \<in> set ts then map_option fixed_obj (H a) else H a)"

text \<open>The name of \<open>t\<close>, if it has one, holds no ampersand.\<close>

definition name_fixed :: "heap \<Rightarrow> val \<Rightarrow> bool" where
  "name_fixed H t =
     (\<forall>nv. py_getitem H t ''name'' = Inr nv \<longrightarrow> py_contains H [CHR ''&''] nv = Inr False)"

text \<open>
  A store with a dictionary whose tags are three dictionaries: one with an ampersand in
  its name, one without, one without a name.
\<close>

definition tags_state :: state where
  "tags_state =
     \<lparr> heap = [0 \<mapsto> ODict [(''title'', VStr ''Roads''), (''tags'', VRef 1)],
               1 \<mapsto> OList [VRef 2, VRef 3, VRef 4],
               2 \<mapsto> ODict [(''name'', VStr ''roads & rail''), (''state'', VStr ''active'')],
               3 \<mapsto> ODict [(''name'', VStr ''transport'')],
               4 \<mapsto> ODict [(''display_name'', VStr ''a & b'')]],
       nxt = 5, log = [] \<rparr>"

text \<open>Nothing is stored at or beyond the next free address.\<close>

definition wf_state :: "state \<Rightarrow> bool" where
  "wf_state s = (\<forall>a. nxt s \<le> a \<longrightarrow> heap s a = None)"

text \<open>Every run of \<open>m\<close> takes a state to one related to it by \<open>R\<close>, whatever the result.\<close>

definition steps :: "(state \<Rightarrow> state \<Rightarrow> bool) \<Rightarrow> 'a py \<Rightarrow> bool" where
  "steps R m = (\<forall>s. R s (snd (m s)))"

text \<open>The fields outside \<open>K\<close> of a dictionary are kept; any other object is kept whole.\<close>

definition same_fields :: "string set \<Rightarrow> obj option \<Rightarrow> obj option \<Rightarrow> bool" where
  "same_fields K ob ob' =
     (ob' = ob \<or>
      (\<exists>d d'. ob = Some (ODict d) \<and> ob' = Some (ODict d') \<and>
         (\<forall>k. k \<notin> K \<longrightarrow> map_of d' k = map_of d k)))"

text \<open>
  From a well-formed state: the state stays well-formed, nothing is freed, the object
  \<open>pd\<close> keeps its fields outside \<open>K\<close> and every other existing object is kept.
\<close>

definition pkg_writes :: "val \<Rightarrow> string set \<Rightarrow> state \<Rightarrow> state \<Rightarrow> bool" where
  "pkg_writes pd K s s' =
     (wf_state s \<longrightarrow>
        wf_state s' \<and> nxt s \<le> nxt s' \<and>
        (\<forall>a. a < nxt s \<longrightarrow>
           (if pd = VRef a then same_fields K (heap s a) (heap s' a)
            else heap s' a = heap s a)))"

text \<open>
  From a state with \<open>P\<close>, a run of \<open>m\<close> that returns ends in a state with \<open>Q\<close>.
\<close>

definition ensures :: "(state \<Rightarrow> bool) \<Rightarrow> 'a py \<Rightarrow> (state \<Rightarrow> bool) \<Rightarrow> bool" where
  "ensures P m Q = (\<forall>s x s'. P s \<longrightarrow> m s = (Inr x, s') \<longrightarrow> Q s')"

text \<open>
  The required field \<open>key\<close> is settled: the extras with this key can be listed, and if
  there are none the dictionary has the default under \<open>key\<close>.
\<close>

definition field_settled :: "val \<Rightarrow> string \<Rightarrow> string \<Rightarrow> state \<Rightarrow> bool" where
  "field_settled pd key dflt s =
     (\<exists>found. extras_with_key (heap s) pd key = Inr found \<and>
        (found = [] \<longrightarrow> py_getitem (heap s) pd key = Inr (VStr dflt)))"

text \<open>The required fields and their defaults.\<close>

definition required_defaults :: "(string \<times> string) list" where
  "required_defaults =
     [(''organization_visibility'', ''current''), (''access'', ''yes''),
      (''workflow_status'', ''draft''), (''personal_information'', ''no''),
      (''protective_marking'', ''official''), (''update_frequency'', ''unknown'')]"

text \<open>A well-formed state stays well-formed and nothing is freed.\<close>

definition wf_rel :: "state \<Rightarrow> state \<Rightarrow> bool" where
  "wf_rel s s' = (wf_state s \<longrightarrow> wf_state s' \<and> nxt s \<le> nxt s')"

text \<open>A property of states that no step of \<open>pkg_writes pd K\<close> destroys.\<close>

definition stable :: "val \<Rightarrow> string set \<Rightarrow> (state \<Rightarrow> bool) \<Rightarrow> bool" where
  "stable pd K Q = (\<forall>s s'. wf_state s \<longrightarrow> Q s \<longrightarrow> pkg_writes pd K s s' \<longrightarrow> Q s')"

text \<open>What follows the six defaults in \<^verbatim>\<open>set_required_fields_defaults\<close> writes other keys.\<close>

definition other_keys :: "string set" where
  "other_keys =
     {''date_created_data_asset'', ''date_modified_data_asset'', ''full_metadata_url'',
      ''license_id'', ''custom_licence_text'', ''tag_string''}"

section \<open>Properties\<close>

subsection \<open>validate_config\<close>

lemma lookup_default_groups_found:
  "list_all (group_found h) gs \<Longrightarrow> \<exists>ds. lookup_default_groups h gs acc = Inr ds"
  by (induction gs arbitrary: acc) (auto simp: group_found_def split: sum.splits error.splits)

lemma lookup_default_groups_missing:
  "list_all (group_found h) pre \<Longrightarrow> group_show h g = Inl NotFound \<Longrightarrow>
   lookup_default_groups h (pre @ g # post) acc = Inl (ValueError ''Default group not found'')"
  by (induction pre arbitrary: acc) (auto simp: group_found_def split: sum.splits error.splits)

lemma map_of_None_keys: "map_of d k = None \<longleftrightarrow> k \<notin> set (map fst d)"
  by (simp add: map_of_eq_None_iff)

lemma map_of_Some_keys: "map_of d k = Some v \<Longrightarrow> k \<in> set (map fst d)"
  by (metis map_of_None_keys option.distinct(1))

lemma list_all_conj_found:
  "list_all (\<lambda>g. j_is_str g \<and> group_found h g) gs \<Longrightarrow> list_all (group_found h) gs"
  by (induction gs) auto

lemma hd_is_str:
  "list_all (\<lambda>g. j_is_str g \<and> group_found h g) gs \<Longrightarrow> gs \<noteq> [] \<Longrightarrow> j_is_str (hd gs)"
  by (cases gs) auto

lemma validate_config_decode_error:
  "config \<noteq> [] \<Longrightarrow> json_loads h config = Inl msg \<Longrightarrow>
   validate_config h config = Inl (ValueError msg)"
  by (simp add: validate_config_def)

lemma validate_config_no_groups:
  "config \<noteq> [] \<Longrightarrow> json_loads h config = Inr (JDict d) \<Longrightarrow>
   map_of d ''default_groups'' = None \<Longrightarrow> validate_config h config = Inr config"
  by (simp add: validate_config_def map_of_None_keys)

lemma validate_config_groups:
  assumes "config \<noteq> []" "json_loads h config = Inr (JDict d)"
    "map_of d ''default_groups'' = Some (JList gs)"
    "gs \<noteq> [] \<longrightarrow> j_is_str (hd gs)"
  shows "validate_config h config =
     (case lookup_default_groups h gs [] of
        Inl e \<Rightarrow> Inl e
      | Inr ds \<Rightarrow> Inr (json_dumps h (JDict (dict_set ''default_group_dicts'' (JList ds) d))))"
  using assms map_of_Some_keys [OF assms(3)]
  by (auto simp: validate_config_def split: sum.splits)

text \<open>
  C3. A non-empty configuration string that \<^verbatim>\<open>json.loads\<close> rejects makes
  \<^verbatim>\<open>validate_config\<close> raise the decode error, a \<^verbatim>\<open>ValueError\<close>, and return nothing; a
  valid configuration (the empty string, or a JSON object whose \<^verbatim>\<open>default_groups\<close>, if
  present, is a list of names of existing groups) makes it return a string.
\<close>

theorem validate_config_raises_or_returns_string:
  "(config \<noteq> [] \<and> json_loads h config = Inl msg \<longrightarrow>
      validate_config h config = Inl (ValueError msg)) \<and>
   (valid_config h config \<longrightarrow> (\<exists>s. validate_config h config = Inr s))"
proof (intro conjI impI)
  assume "config \<noteq> [] \<and> json_loads h config = Inl msg"
  then show "validate_config h config = Inl (ValueError msg)"
    by (simp add: validate_config_decode_error)
next
  assume v: "valid_config h config"
  show "\<exists>s. validate_config h config = Inr s"
  proof (cases "config = []")
    case True
    then show ?thesis by (simp add: validate_config_def)
  next
    case False
    with v obtain d where d: "json_loads h config = Inr (JDict d)"
      by (auto simp: valid_config_def split: sum.splits json.splits)
    show ?thesis
    proof (cases "map_of d ''default_groups''")
      case None
      with False d show ?thesis by (simp add: validate_config_no_groups)
    next
      case (Some x)
      with v False d obtain gs where gs: "x = JList gs"
        "list_all (\<lambda>g. j_is_str g \<and> group_found h g) gs"
        by (auto simp: valid_config_def split: json.splits)
      from gs(2) obtain ds where "lookup_default_groups h gs [] = Inr ds"
        using lookup_default_groups_found [OF list_all_conj_found] by blast
      with False d Some gs show ?thesis
        using hd_is_str [OF gs(2)] by (simp add: validate_config_groups)
    qed
  qed
qed

theorem validate_config_raises_or_returns_string_witness:
  \<open>validate_config example_host ''{"default_groups": '' =
     Inl (ValueError ''No JSON object could be decoded'') \<and>
   valid_config example_host ''{"default_groups": ["transport"]}'' \<and>
   (\<exists>s. validate_config example_host ''{"default_groups": ["transport"]}'' = Inr s)\<close>
proof -
  have v: \<open>valid_config example_host ''{"default_groups": ["transport"]}''\<close>
    by (simp add: valid_config_def example_host_def example_loads_def group_found_def)
  have e: \<open>json_loads example_host ''{"default_groups": '' =
      Inl ''No JSON object could be decoded''\<close>
    by (simp add: example_host_def example_loads_def)
  show ?thesis
    using v e
      validate_config_raises_or_returns_string
        [of \<open>''{"default_groups": ''\<close> example_host \<open>''No JSON object could be decoded''\<close>]
      validate_config_raises_or_returns_string
        [of \<open>''{"default_groups": ["transport"]}''\<close> example_host]
    by simp
qed

text \<open>
  C4, as the code has it. When the configuration is a JSON object whose
  \<^verbatim>\<open>default_groups\<close> is a list that starts with a string, and the lookup reports
  \<^verbatim>\<open>NotFound\<close> for an entry after finding a group with \<^verbatim>\<open>id\<close> and \<^verbatim>\<open>name\<close> for every
  entry before it, \<^verbatim>\<open>validate_config\<close> raises \<^verbatim>\<open>ValueError('Default group not found')\<close>.
\<close>

theorem validate_config_group_not_found:
  assumes "config \<noteq> []" "json_loads h config = Inr (JDict d)"
    "map_of d ''default_groups'' = Some (JList (pre @ g # post))"
    "j_is_str (hd (pre @ [g]))"
    "list_all (group_found h) pre" "group_show h g = Inl NotFound"
  shows "validate_config h config = Inl (ValueError ''Default group not found'')"
proof -
  have "hd (pre @ g # post) = hd (pre @ [g])" by (cases pre) auto
  with assms(4) have "pre @ g # post \<noteq> [] \<longrightarrow> j_is_str (hd (pre @ g # post))" by simp
  from validate_config_groups [OF assms(1-3) this]
  show ?thesis by (simp add: lookup_default_groups_missing [OF assms(5,6)])
qed

theorem validate_config_group_not_found_witness:
  \<open>validate_config example_host ''{"default_groups": ["transport", "missing"]}'' =
     Inl (ValueError ''Default group not found'')\<close>
  using validate_config_group_not_found
    [of \<open>''{"default_groups": ["transport", "missing"]}''\<close> example_host
        "[(''default_groups'', JList [JStr ''transport'', JStr ''missing''])]"
        "[JStr ''transport'']" "JStr ''missing''" "[]"]
  by (simp add: example_host_def example_loads_def group_found_def)

text \<open>
  C4 as stated fails: in \<^verbatim>\<open>{"default_groups": [5, "missing"]}\<close> the lookup of
  \<^verbatim>\<open>"missing"\<close> would report \<^verbatim>\<open>NotFound\<close>, but the check of the first entry raises a
  \<^verbatim>\<open>ValueError\<close> with another message before any lookup.
\<close>

theorem validate_config_group_not_found_counterexample:
  \<open>json_loads example_host ''{"default_groups": [5, "missing"]}'' =
     Inr (JDict [(''default_groups'', JList [JInt 5, JStr ''missing''])]) \<and>
   group_show example_host (JStr ''missing'') = Inl NotFound \<and>
   validate_config example_host ''{"default_groups": [5, "missing"]}'' =
     Inl (ValueError ''default_groups must be a list of group names/ids (i.e. strings)'') \<and>
   validate_config example_host ''{"default_groups": [5, "missing"]}'' \<noteq>
     Inl (ValueError ''Default group not found'')\<close>
  by (simp add: validate_config_def example_host_def example_loads_def)

text \<open>
  C10, as the code has it. \<^verbatim>\<open>validate_config\<close> returns the empty configuration
  unchanged, and returns the original string for every configuration whose parsed value
  can be asked for \<^verbatim>\<open>'default_groups'\<close> (an object, an array or a string) and does not
  have it; in particular for every JSON object without that key.
\<close>

theorem validate_config_identity:
  "validate_config h [] = Inr [] \<and>
   (config \<noteq> [] \<and> json_loads h config = Inr config_obj \<and>
    j_contains ''default_groups'' config_obj = Inr False
      \<longrightarrow> validate_config h config = Inr config) \<and>
   (config \<noteq> [] \<and> json_loads h config = Inr (JDict d) \<and>
    ''default_groups'' \<notin> set (map fst d)
      \<longrightarrow> validate_config h config = Inr config)"
  by (simp add: validate_config_def)

theorem validate_config_identity_witness:
  "validate_config example_host ''{}'' = Inr ''{}''"
  using validate_config_identity [of example_host "''{}''" "JDict []" "[]"]
  by (simp add: example_host_def example_loads_def)

text \<open>
  C10 as stated fails: \<^verbatim>\<open>5\<close> is valid JSON without a \<^verbatim>\<open>default_groups\<close> key, and
  \<^verbatim>\<open>'default_groups' in 5\<close> raises a \<^verbatim>\<open>TypeError\<close>.
\<close>

theorem validate_config_identity_counterexample:
  "json_loads example_host ''5'' = Inr (JInt 5) \<and>
   validate_config example_host ''5'' = Inl TypeError"
  by (simp add: validate_config_def example_host_def example_loads_def)

subsection \<open>The monad\<close>

lemma py_bind_Inr: "m s = (Inr x, s') \<Longrightarrow> py_bind m f s = f x s'"
  by (simp add: py_bind_def)

lemma py_bind_Inl: "m s = (Inl e, s') \<Longrightarrow> py_bind m f s = (Inl e, s')"
  by (simp add: py_bind_def)

lemma py_return_bind: "py_bind (py_return x) f = f x"
  by (simp add: py_bind_def py_return_def)

lemma py_raise_bind: "py_bind (py_raise e) f = py_raise e"
  by (simp add: py_bind_def py_raise_def)

subsection \<open>generate_extract\<close>

lemma str_index_None: "str_index c s = None \<longleftrightarrow> c \<notin> set s"
  by (induction s) (auto split: option.splits)




subsection \<open>fix_erroneous_tags\<close>

lemma str_contains_char: "str_contains [c] s \<longleftrightarrow> c \<in> set s"
  by (induction s) auto

lemma replace_amp_no_amp: "CHR ''&'' \<notin> set (replace_amp n)"
  by (induction n) auto

lemma replace_amp_id: "CHR ''&'' \<notin> set n \<Longrightarrow> replace_amp n = n"
  by (induction n) auto

lemma map_of_dict_set: "map_of (dict_set k v d) k' = (if k' = k then Some v else map_of d k')"
  by (induction d) auto

lemma keys_dict_set: "k \<in> set (map fst d) \<Longrightarrow> map fst (dict_set k v d) = map fst d"
  by (induction d) force+

lemma keys_fixed_dict [simp]: "map fst (fixed_dict d) = map fst d"
  by (auto simp: fixed_dict_def keys_dict_set dest: map_of_Some_keys
      split: option.splits val.splits)

lemma fixed_dict_Nil [simp]: "fixed_dict d = [] \<longleftrightarrow> d = []"
  by (metis keys_fixed_dict map_is_Nil_conv)

lemma set_keys_fixed_dict [simp]: "fst ` set (fixed_dict d) = fst ` set d"
  by (metis keys_fixed_dict list.set_map)

lemma iter_fixed_dict [simp]:
  "map (\<lambda>kv. VStr (fst kv)) (fixed_dict d) = map (\<lambda>kv. VStr (fst kv)) d"
proof -
  have "map (\<lambda>kv. VStr (fst kv)) e = map VStr (map fst e)" for e :: "(string \<times> val) list"
    by simp
  then show ?thesis by (simp only: keys_fixed_dict)
qed

lemma map_of_fixed_dict: "k \<noteq> ''name'' \<Longrightarrow> map_of (fixed_dict d) k = map_of d k"
  by (auto simp: fixed_dict_def map_of_dict_set split: option.splits val.splits)

lemma map_of_fixed_dict_name:
  "map_of (fixed_dict d) ''name'' =
     (case map_of d ''name'' of
        Some (VStr n) \<Rightarrow> Some (VStr (replace_amp n))
      | x \<Rightarrow> x)"
  by (auto simp: fixed_dict_def map_of_dict_set replace_amp_id split: option.splits val.splits)

lemma fixed_dict_idem [simp]: "fixed_dict (fixed_dict d) = fixed_dict d"
proof (cases "map_of d ''name''")
  case None
  then show ?thesis by (simp add: fixed_dict_def)
next
  case (Some x)
  have "map_of (fixed_dict d) ''name'' = Some (VStr n) \<Longrightarrow> CHR ''&'' \<notin> set n" for n
    using Some by (auto simp: map_of_fixed_dict_name replace_amp_no_amp split: val.splits)
  then show ?thesis
    by (subst (1) fixed_dict_def) (auto split: option.splits val.splits)
qed

lemma fixed_obj_idem [simp]: "fixed_obj (fixed_obj ob) = fixed_obj ob"
  by (cases ob) auto

lemma fixed_heap_Cons: "fixed_heap (fixed_heap H [t]) ts = fixed_heap H (t # ts)"
  by (rule ext) (auto simp: fixed_heap_def option.map_comp comp_def)

lemma fixed_heap_Nil: "fixed_heap H [] = H"
  by (simp add: fixed_heap_def)

lemma fixed_heap_cases:
  "fixed_heap H ts a = None \<longleftrightarrow> H a = None"
  "fixed_heap H ts a = Some (OList xs) \<longleftrightarrow> H a = Some (OList xs)"
  "fixed_heap H ts a = Some (ODict d') \<longleftrightarrow>
     (\<exists>d. H a = Some (ODict d) \<and> d' = (if VRef a \<in> set ts then fixed_dict d else d))"
  by (cases "H a"; cases "the (H a)"; auto simp: fixed_heap_def)+

lemma fixed_heap_at:
  "fixed_heap H ts a = (if VRef a \<in> set ts then map_option fixed_obj (H a) else H a)"
  by (simp add: fixed_heap_def)

lemma py_contains_fixed_heap [simp]: "py_contains (fixed_heap H ts) k v = py_contains H k v"
proof (cases v)
  case (VRef a)
  show ?thesis
  proof (cases "H a")
    case None
    then show ?thesis using VRef by (simp add: fixed_heap_at)
  next
    case (Some ob)
    then show ?thesis using VRef by (cases ob) (simp_all add: fixed_heap_at)
  qed
qed simp_all

lemma py_iter_fixed_heap [simp]: "py_iter (fixed_heap H ts) v = py_iter H v"
proof (cases v)
  case (VRef a)
  show ?thesis
  proof (cases "H a")
    case None
    then show ?thesis using VRef by (simp add: fixed_heap_at)
  next
    case (Some ob)
    then show ?thesis using VRef by (cases ob) (simp_all add: fixed_heap_at)
  qed
qed simp_all

lemma py_truthy_fixed_heap [simp]: "py_truthy (fixed_heap H ts) v = py_truthy H v"
proof (cases v)
  case (VRef a)
  show ?thesis
  proof (cases "H a")
    case None
    then show ?thesis using VRef by (simp add: fixed_heap_at)
  next
    case (Some ob)
    then show ?thesis using VRef by (cases ob) (simp_all add: fixed_heap_at)
  qed
qed simp_all

lemma py_getitem_fixed_heap:
  "k \<noteq> ''name'' \<Longrightarrow> py_getitem (fixed_heap H ts) v k = py_getitem H v k"
proof (cases v)
  case (VRef a)
  assume k: "k \<noteq> ''name''"
  show ?thesis
  proof (cases "H a")
    case None
    then show ?thesis using VRef by (simp add: fixed_heap_at)
  next
    case (Some ob)
    then show ?thesis using VRef k by (cases ob) (simp_all add: fixed_heap_at map_of_fixed_dict)
  qed
qed simp_all

text \<open>What a successful visit of one tag does.\<close>

lemma fix_tag_cases:
  assumes "fix_tag t s = (Inr (), s')"
  shows "(s' = s \<and> py_contains (heap s) ''name'' t = Inr False) \<or>
         (s' = s \<and> (\<exists>nv. py_getitem (heap s) t ''name'' = Inr nv \<and>
                           py_contains (heap s) [CHR ''&''] nv = Inr False)) \<or>
         (\<exists>a d n. t = VRef a \<and> heap s a = Some (ODict d) \<and> map_of d ''name'' = Some (VStr n) \<and>
                  CHR ''&'' \<in> set n \<and>
                  s' = s\<lparr>heap := (heap s)(a \<mapsto> ODict (dict_set ''name'' (VStr (replace_amp n)) d))\<rparr>)"
proof (cases "py_contains (heap s) ''name'' t")
  case (Inl e)
  with assms show ?thesis by (simp add: fix_tag_def py_bind_def py_read_def)
next
  case (Inr has_name)
  note hn = this
  show ?thesis
  proof (cases has_name)
    case False
    with hn assms show ?thesis by (simp add: fix_tag_def py_bind_def py_read_def py_return_def)
  next
    case True
    show ?thesis
    proof (cases "py_getitem (heap s) t ''name''")
      case (Inl e)
      with hn True assms show ?thesis by (simp add: fix_tag_def py_bind_def py_read_def)
    next
      case (Inr nv)
      note gi = this
      show ?thesis
      proof (cases "py_contains (heap s) [CHR ''&''] nv")
        case (Inl e)
        with hn True gi assms show ?thesis by (simp add: fix_tag_def py_bind_def py_read_def)
      next
        case (Inr has_amp)
        show ?thesis
        proof (cases has_amp)
          case False
          with hn True gi Inr assms show ?thesis
            by (simp add: fix_tag_def py_bind_def py_read_def py_return_def)
        next
          case amp: True
          from hn True gi Inr amp assms obtain n where n: "nv = VStr n"
            by (cases nv) (simp_all add: fix_tag_def py_bind_def py_read_def py_raise_def)
          from gi obtain a d where a: "t = VRef a" "heap s a = Some (ODict d)"
            "map_of d ''name'' = Some nv"
            by (cases t) (auto split: option.splits obj.splits)
          from Inr amp n have "CHR ''&'' \<in> set n" by (simp add: str_contains_char)
          moreover from hn True gi Inr amp assms n a
          have "s' = s\<lparr>heap := (heap s)(a \<mapsto> ODict (dict_set ''name'' (VStr (replace_amp n)) d))\<rparr>"
            by (simp add: fix_tag_def py_bind_def py_read_def)
          ultimately show ?thesis using a n by blast
        qed
      qed
    qed
  qed
qed

lemma map_of_Some_fst: "map_of d k = Some v \<Longrightarrow> k \<in> fst ` set d"
  by (force dest: map_of_SomeD)

lemma fixed_heap_other: "(\<And>a. t \<noteq> VRef a) \<Longrightarrow> fixed_heap H [t] = H"
  by (rule ext) (auto simp: fixed_heap_def)

lemma fixed_heap_ref:
  "H a = Some ob \<Longrightarrow> fixed_heap H [VRef a] = H(a \<mapsto> fixed_obj ob)"
  by (rule ext) (auto simp: fixed_heap_def)

lemma fixed_heap_dangling: "H a = None \<Longrightarrow> fixed_heap H [VRef a] = H"
  by (rule ext) (auto simp: fixed_heap_def)

lemma fixed_heap_same: "H a = Some ob \<Longrightarrow> fixed_obj ob = ob \<Longrightarrow> fixed_heap H [VRef a] = H"
  by (rule ext) (auto simp: fixed_heap_def)

lemma fix_tag_heap:
  assumes "fix_tag t s = (Inr (), s')"
  shows "heap s' = fixed_heap (heap s) [t] \<and> nxt s' = nxt s \<and> log s' = log s"
proof -
  have same: "fixed_heap (heap s) [t] = heap s"
    if "py_contains (heap s) ''name'' t = Inr False \<or>
        (\<exists>nv. py_getitem (heap s) t ''name'' = Inr nv \<and>
              py_contains (heap s) [CHR ''&''] nv = Inr False)"
  proof (cases t)
    case (VRef a)
    show ?thesis
    proof (cases "heap s a")
      case None
      then show ?thesis using VRef by (simp add: fixed_heap_dangling)
    next
      case (Some ob)
      have "fixed_obj ob = ob"
      proof (cases ob)
        case (ODict d)
        from that VRef Some ODict have "fixed_dict d = d"
          by (auto simp: fixed_dict_def str_contains_char dest: map_of_Some_fst
              split: option.splits val.splits)
        then show ?thesis using ODict by simp
      qed simp
      then show ?thesis using VRef Some by (simp add: fixed_heap_same)
    qed
  qed (simp_all add: fixed_heap_other)
  from fix_tag_cases [OF assms] show ?thesis
  proof (elim disjE conjE exE)
    fix a d n
    assume *: "t = VRef a" "heap s a = Some (ODict d)" "map_of d ''name'' = Some (VStr n)"
      "CHR ''&'' \<in> set n"
      "s' = s\<lparr>heap := (heap s)(a \<mapsto> ODict (dict_set ''name'' (VStr (replace_amp n)) d))\<rparr>"
    then have "fixed_dict d = dict_set ''name'' (VStr (replace_amp n)) d"
      by (simp add: fixed_dict_def)
    with * show ?thesis by (simp add: fixed_heap_ref)
  qed (use same in auto)
qed

lemma fix_tags_heap:
  "fix_tags ts s = (Inr (), s') \<Longrightarrow>
   heap s' = fixed_heap (heap s) ts \<and> nxt s' = nxt s \<and> log s' = log s"
proof (induction ts arbitrary: s)
  case Nil
  then show ?case by (simp add: py_return_def fixed_heap_Nil)
next
  case (Cons t ts)
  from Cons.prems obtain s1 where 1: "fix_tag t s = (Inr (), s1)" and 2: "fix_tags ts s1 = (Inr (), s')"
    by (auto simp: py_bind_def split: prod.splits sum.splits)
  from fix_tag_heap [OF 1] Cons.IH [OF 2] show ?case
    by (simp add: fixed_heap_Cons)
qed

lemma py_getitem_name_fixed_heap:
  "py_getitem (fixed_heap H ts) t ''name'' = Inr nv \<Longrightarrow>
   \<exists>nv0. py_getitem H t ''name'' = Inr nv0 \<and>
     (nv = nv0 \<or> (\<exists>n. nv0 = VStr n \<and> nv = VStr (replace_amp n)))"
proof (cases t)
  case (VRef a)
  assume g: "py_getitem (fixed_heap H ts) t ''name'' = Inr nv"
  show ?thesis
  proof (cases "H a")
    case None
    then show ?thesis using VRef g by (auto simp: fixed_heap_at split: if_splits)
  next
    case (Some ob)
    then show ?thesis using VRef g
      by (cases ob)
        (auto simp: fixed_heap_at map_of_fixed_dict_name split: option.splits val.splits if_splits)
  qed
qed simp_all

lemma name_fixed_stable:
  assumes "name_fixed H t"
  shows "name_fixed (fixed_heap H ts) t"
  unfolding name_fixed_def
proof (intro allI impI)
  fix nv
  assume "py_getitem (fixed_heap H ts) t ''name'' = Inr nv"
  from py_getitem_name_fixed_heap [OF this] obtain nv0 where
    nv0: "py_getitem H t ''name'' = Inr nv0"
      "nv = nv0 \<or> (\<exists>n. nv0 = VStr n \<and> nv = VStr (replace_amp n))" by blast
  from assms nv0(1) have "py_contains H [CHR ''&''] nv0 = Inr False"
    by (simp add: name_fixed_def)
  with nv0(2) show "py_contains (fixed_heap H ts) [CHR ''&''] nv = Inr False"
    by (auto simp: str_contains_char replace_amp_no_amp)
qed

lemma fix_tag_name_fixed:
  assumes "fix_tag t s = (Inr (), s')"
  shows "name_fixed (heap s') t"
  using fix_tag_cases [OF assms]
proof (elim disjE conjE exE)
  assume "s' = s" "py_contains (heap s) ''name'' t = Inr False"
  then show ?thesis
    by (cases t)
      (auto simp: name_fixed_def dest: map_of_Some_fst split: option.splits obj.splits)
next
  fix nv
  assume "s' = s" "py_getitem (heap s) t ''name'' = Inr nv"
    "py_contains (heap s) [CHR ''&''] nv = Inr False"
  then show ?thesis by (simp add: name_fixed_def)
next
  fix a d n
  assume "t = VRef a" "heap s a = Some (ODict d)" "map_of d ''name'' = Some (VStr n)"
    "CHR ''&'' \<in> set n"
    "s' = s\<lparr>heap := (heap s)(a \<mapsto> ODict (dict_set ''name'' (VStr (replace_amp n)) d))\<rparr>"
  then show ?thesis
    by (simp add: name_fixed_def map_of_dict_set str_contains_char replace_amp_no_amp)
qed

lemma fix_tags_name_fixed:
  "fix_tags ts s = (Inr (), s') \<Longrightarrow> t \<in> set ts \<Longrightarrow> name_fixed (heap s') t"
proof (induction ts arbitrary: s)
  case Nil
  then show ?case by simp
next
  case (Cons x ts)
  from Cons.prems(1) obtain s1 where 1: "fix_tag x s = (Inr (), s1)"
    and 2: "fix_tags ts s1 = (Inr (), s')"
    by (auto simp: py_bind_def split: prod.splits sum.splits)
  show ?case
  proof (cases "t = x")
    case True
    from fix_tag_name_fixed [OF 1] fix_tags_heap [OF 2] True show ?thesis
      by (simp add: name_fixed_stable)
  next
    case False
    with Cons.prems(2) Cons.IH [OF 2] show ?thesis by simp
  qed
qed

lemma py_iter_falsy:
  "py_truthy H v = Inr False \<Longrightarrow> py_iter H v = Inr ts \<Longrightarrow> ts = []"
  by (cases v) (auto split: option.splits obj.splits)

lemma fix_erroneous_tags_heap:
  assumes run: "fix_erroneous_tags package_dict s = (Inr (), s')"
    and tags: "py_getitem (heap s) package_dict ''tags'' = Inr tags"
    and ts: "py_iter (heap s) tags = Inr ts"
  shows "heap s' = fixed_heap (heap s) ts \<and> nxt s' = nxt s \<and> log s' = log s"
    and "t \<in> set ts \<Longrightarrow> name_fixed (heap s') t"
proof -
  from run tags obtain b where b: "py_truthy (heap s) tags = Inr b"
    by (cases "py_truthy (heap s) tags")
      (simp_all add: fix_erroneous_tags_def py_bind_def py_read_def)
  have "(heap s' = fixed_heap (heap s) ts \<and> nxt s' = nxt s \<and> log s' = log s) \<and>
        (t \<in> set ts \<longrightarrow> name_fixed (heap s') t)"
  proof (cases b)
    case False
    with run tags b have "s' = s"
      by (simp add: fix_erroneous_tags_def py_bind_def py_read_def py_return_def)
    moreover from False b ts have "ts = []" by (simp add: py_iter_falsy)
    ultimately show ?thesis by (simp add: fixed_heap_Nil)
  next
    case True
    with run tags b ts have ft: "fix_tags ts s = (Inr (), s')"
      by (simp add: fix_erroneous_tags_def py_bind_def py_read_def)
    show ?thesis
      using fix_tags_heap [OF ft] fix_tags_name_fixed [OF ft] by blast
  qed
  then show "heap s' = fixed_heap (heap s) ts \<and> nxt s' = nxt s \<and> log s' = log s"
    and "t \<in> set ts \<Longrightarrow> name_fixed (heap s') t" by blast+
qed

lemma fixed_heap_name:
  assumes "py_getitem H t ''name'' = Inr (VStr n)" "t \<in> set ts"
  shows "py_getitem (fixed_heap H ts) t ''name'' = Inr (VStr (replace_amp n))"
proof (cases t)
  case (VRef a)
  with assms(1) obtain d where "H a = Some (ODict d)" "map_of d ''name'' = Some (VStr n)"
    by (auto split: option.splits obj.splits)
  with VRef assms(2) show ?thesis by (simp add: fixed_heap_at map_of_fixed_dict_name)
qed (use assms in simp_all)

lemma fixed_heap_no_name:
  assumes "py_contains H ''name'' (VRef a) = Inr False"
  shows "fixed_heap H ts a = H a"
proof (cases "H a")
  case None
  then show ?thesis by (simp add: fixed_heap_at)
next
  case (Some ob)
  have "fixed_obj ob = ob"
  proof (cases ob)
    case (ODict d)
    with assms Some have "map_of d ''name'' = None" by (simp add: map_of_None_keys)
    then show ?thesis using ODict by (simp add: fixed_dict_def)
  qed simp
  with Some show ?thesis by (simp add: fixed_heap_at)
qed

text \<open>
  C8. After a run of \<^verbatim>\<open>fix_erroneous_tags\<close> that returns, on a dictionary whose
  \<^verbatim>\<open>tags\<close> visit the elements \<open>ts\<close>: no tag's name contains \<^verbatim>\<open>&\<close>; a name that
  was a string has each \<^verbatim>\<open>&\<close> replaced by \<^verbatim>\<open>and\<close>; the tags are the same objects, as
  many and in the same order; every field other than \<^verbatim>\<open>name\<close> of every object is
  unchanged; and an object without a \<^verbatim>\<open>name\<close> is untouched.
\<close>

theorem fix_erroneous_tags_replaces_ampersands:
  assumes run: "fix_erroneous_tags package_dict s = (Inr (), s')"
    and tags: "py_getitem (heap s) package_dict ''tags'' = Inr tags"
    and ts: "py_iter (heap s) tags = Inr ts"
  shows "(\<forall>t\<in>set ts. \<forall>nv. py_getitem (heap s') t ''name'' = Inr nv \<longrightarrow>
            py_contains (heap s') [CHR ''&''] nv = Inr False) \<and>
         (\<forall>t\<in>set ts. \<forall>n. py_getitem (heap s) t ''name'' = Inr (VStr n) \<longrightarrow>
            py_getitem (heap s') t ''name'' = Inr (VStr (replace_amp n))) \<and>
         py_getitem (heap s') package_dict ''tags'' = Inr tags \<and>
         py_iter (heap s') tags = Inr ts \<and>
         (\<forall>t k. k \<noteq> ''name'' \<longrightarrow> py_getitem (heap s') t k = py_getitem (heap s) t k) \<and>
         (\<forall>a. py_contains (heap s) ''name'' (VRef a) = Inr False \<longrightarrow> heap s' a = heap s a)"
proof -
  note h = fix_erroneous_tags_heap [OF run tags ts]
  from h(1) have H: "heap s' = fixed_heap (heap s) ts" by simp
  show ?thesis
  proof (intro conjI ballI allI impI)
    fix t nv
    assume "t \<in> set ts" "py_getitem (heap s') t ''name'' = Inr nv"
    with h(2) show "py_contains (heap s') [CHR ''&''] nv = Inr False"
      by (simp add: name_fixed_def)
  next
    fix t n
    assume "t \<in> set ts" "py_getitem (heap s) t ''name'' = Inr (VStr n)"
    then show "py_getitem (heap s') t ''name'' = Inr (VStr (replace_amp n))"
      by (simp add: H fixed_heap_name)
  next
    show "py_getitem (heap s') package_dict ''tags'' = Inr tags"
      using tags by (simp add: H py_getitem_fixed_heap)
  next
    show "py_iter (heap s') tags = Inr ts" using ts by (simp add: H)
  next
    fix t k
    assume "k \<noteq> ''name''"
    then show "py_getitem (heap s') t k = py_getitem (heap s) t k"
      by (simp add: H py_getitem_fixed_heap)
  next
    fix a
    assume "py_contains (heap s) ''name'' (VRef a) = Inr False"
    then show "heap s' a = heap s a" by (simp add: H fixed_heap_no_name)
  qed
qed

lemma tags_run:
  "fst (fix_erroneous_tags (VRef 0) tags_state) = Inr ()"
  by (simp add: fix_erroneous_tags_def fix_tag_def tags_state_def py_bind_def py_read_def
      py_return_def)

theorem fix_erroneous_tags_replaces_ampersands_witness:
  "fix_erroneous_tags (VRef 0) tags_state =
     (Inr (), snd (fix_erroneous_tags (VRef 0) tags_state)) \<and>
   py_getitem (heap tags_state) (VRef 0) ''tags'' = Inr (VRef 1) \<and>
   py_iter (heap tags_state) (VRef 1) = Inr [VRef 2, VRef 3, VRef 4] \<and>
   py_getitem (heap (snd (fix_erroneous_tags (VRef 0) tags_state))) (VRef 2) ''name'' =
     Inr (VStr ''roads and rail'') \<and>
   py_iter (heap (snd (fix_erroneous_tags (VRef 0) tags_state))) (VRef 1) =
     Inr [VRef 2, VRef 3, VRef 4] \<and>
   py_getitem (heap (snd (fix_erroneous_tags (VRef 0) tags_state))) (VRef 2) ''state'' =
     Inr (VStr ''active'') \<and>
   heap (snd (fix_erroneous_tags (VRef 0) tags_state)) 4 = heap tags_state 4"
proof -
  define S where "S = snd (fix_erroneous_tags (VRef 0) tags_state)"
  have run: "fix_erroneous_tags (VRef 0) tags_state = (Inr (), S)"
    using tags_run by (simp add: prod_eq_iff S_def)
  have tags: "py_getitem (heap tags_state) (VRef 0) ''tags'' = Inr (VRef 1)"
    and ts: "py_iter (heap tags_state) (VRef 1) = Inr [VRef 2, VRef 3, VRef 4]"
    and n2: "py_getitem (heap tags_state) (VRef 2) ''name'' = Inr (VStr ''roads & rail'')"
    and s2: "py_getitem (heap tags_state) (VRef 2) ''state'' = Inr (VStr ''active'')"
    and n4: "py_contains (heap tags_state) ''name'' (VRef 4) = Inr False"
    by (simp_all add: tags_state_def)
  note T = fix_erroneous_tags_replaces_ampersands [OF run tags ts]
  from T have "\<forall>t\<in>set [VRef 2, VRef 3, VRef 4]. \<forall>n.
      py_getitem (heap tags_state) t ''name'' = Inr (VStr n) \<longrightarrow>
      py_getitem (heap S) t ''name'' = Inr (VStr (replace_amp n))" by (elim conjE)
  then have "py_getitem (heap S) (VRef 2) ''name'' = Inr (VStr (replace_amp ''roads & rail''))"
    using n2 by (simp del: py_getitem.simps)
  then have a: "py_getitem (heap S) (VRef 2) ''name'' = Inr (VStr ''roads and rail'')"
    by (simp del: py_getitem.simps)
  from T have b: "py_iter (heap S) (VRef 1) = Inr [VRef 2, VRef 3, VRef 4]" by (elim conjE)
  from T have "\<forall>t k. k \<noteq> ''name'' \<longrightarrow>
      py_getitem (heap S) t k = py_getitem (heap tags_state) t k" by (elim conjE)
  then have "py_getitem (heap S) (VRef 2) ''state'' = py_getitem (heap tags_state) (VRef 2) ''state''"
    by (simp del: py_getitem.simps)
  with s2 have c: "py_getitem (heap S) (VRef 2) ''state'' = Inr (VStr ''active'')"
    by (simp del: py_getitem.simps)
  from T have "\<forall>a. py_contains (heap tags_state) ''name'' (VRef a) = Inr False \<longrightarrow>
      heap S a = heap tags_state a" by (elim conjE)
  with n4 have d: "heap S 4 = heap tags_state 4" by blast
  from run tags ts a b c d show ?thesis unfolding S_def by (intro conjI)
qed

subsection \<open>The required fields\<close>

lemma steps_bind:
  assumes "transp R" "steps R m" "\<And>x. steps R (f x)"
  shows "steps R (py_bind m f)"
  unfolding steps_def
proof
  fix s
  obtain r s1 where m: "m s = (r, s1)" by (cases "m s")
  from assms(2) m have 1: "R s s1" by (auto simp: steps_def dest: spec [of _ s])
  show "R s (snd (py_bind m f s))"
  proof (cases r)
    case (Inl e)
    with m 1 show ?thesis by (simp add: py_bind_def)
  next
    case (Inr x)
    from assms(3) [of x] have "R s1 (snd (f x s1))" by (simp add: steps_def)
    with 1 assms(1) have "R s (snd (f x s1))" by (blast dest: transpD)
    with m Inr show ?thesis by (simp add: py_bind_def)
  qed
qed

lemma steps_pure:
  assumes "reflp R"
  shows "steps R (py_return x)" "steps R (py_raise e)" "steps R (py_read g)" "steps R (py_call r)"
  using assms
  by (simp_all add: steps_def py_return_def py_raise_def py_read_def py_call_def reflpD)

lemma steps_if: "steps R m \<Longrightarrow> steps R n \<Longrightarrow> steps R (if b then m else n)"
  by simp

lemma same_fields_refl [simp]: "same_fields K ob ob"
  by (simp add: same_fields_def)

lemma same_fields_trans:
  "same_fields K a b \<Longrightarrow> same_fields K b c \<Longrightarrow> same_fields K a c"
  by (auto simp: same_fields_def)

lemma same_fields_mono: "K \<subseteq> K' \<Longrightarrow> same_fields K a b \<Longrightarrow> same_fields K' a b"
  unfolding same_fields_def by blast

lemma pkg_writes_refl: "reflp (pkg_writes pd K)"
  by (rule reflpI) (simp add: pkg_writes_def)

lemma pkg_writes_trans: "transp (pkg_writes pd K)"
proof (rule transpI)
  fix s s1 s2
  assume 1: "pkg_writes pd K s s1" and 2: "pkg_writes pd K s1 s2"
  show "pkg_writes pd K s s2"
    unfolding pkg_writes_def
  proof (intro impI conjI allI)
    assume wf: "wf_state s"
    with 1 have a: "wf_state s1" "nxt s \<le> nxt s1" by (simp_all add: pkg_writes_def)
    with 2 have b: "wf_state s2" "nxt s1 \<le> nxt s2" by (simp_all add: pkg_writes_def)
    show "wf_state s2" by fact
    show "nxt s \<le> nxt s2" using a b by simp
    fix a
    assume lt: "a < nxt s"
    with a have lt1: "a < nxt s1" by simp
    from 1 wf lt have x: "if pd = VRef a then same_fields K (heap s a) (heap s1 a)
        else heap s1 a = heap s a" by (simp add: pkg_writes_def)
    from 2 a(1) lt1 have y: "if pd = VRef a then same_fields K (heap s1 a) (heap s2 a)
        else heap s2 a = heap s1 a" by (simp add: pkg_writes_def)
    from x y show "if pd = VRef a then same_fields K (heap s a) (heap s2 a)
        else heap s2 a = heap s a"
      by (auto intro: same_fields_trans split: if_splits)
  qed
qed

lemma pkg_writes_mono: "K \<subseteq> K' \<Longrightarrow> pkg_writes pd K s s' \<Longrightarrow> pkg_writes pd K' s s'"
  by (auto simp: pkg_writes_def intro: same_fields_mono split: if_splits)

lemma steps_pkg_mono: "K \<subseteq> K' \<Longrightarrow> steps (pkg_writes pd K) m \<Longrightarrow> steps (pkg_writes pd K') m"
  by (auto simp: steps_def intro: pkg_writes_mono)

lemma wf_allocated: "wf_state s \<Longrightarrow> heap s a = Some ob \<Longrightarrow> a < nxt s"
  by (metis wf_state_def not_le option.distinct(1))

lemma steps_pkg_new: "steps (pkg_writes pd K) (py_new ob)"
  by (auto simp: steps_def pkg_writes_def py_new_def wf_state_def)

lemma steps_pkg_log: "steps (pkg_writes pd K) (log_error msg)"
  by (auto simp: steps_def pkg_writes_def log_error_def wf_state_def)

lemma steps_pkg_setitem: "k \<in> K \<Longrightarrow> steps (pkg_writes pd K) (py_setitem pd k x)"
proof (cases pd)
  case (VRef p)
  assume k: "k \<in> K"
  show ?thesis
    unfolding steps_def
  proof
    fix s
    show "pkg_writes pd K s (snd (py_setitem pd k x s))"
    proof (cases "heap s p")
      case None
      then show ?thesis using VRef by (simp add: pkg_writes_def)
    next
      case (Some ob)
      show ?thesis
      proof (cases ob)
        case (ODict d)
        with Some VRef k show ?thesis
          by (auto simp: pkg_writes_def wf_state_def same_fields_def map_of_dict_set)
      next
        case (OList xs)
        with Some VRef show ?thesis by (simp add: pkg_writes_def)
      qed
    qed
  qed
qed (simp_all add: steps_pure pkg_writes_refl)

lemmas steps_pkg_intros =
  steps_bind [OF pkg_writes_trans] steps_pure [OF pkg_writes_refl]
  steps_pkg_new steps_pkg_log steps_if

lemma steps_pkg_set_default_field:
  "key \<in> K \<Longrightarrow> steps (pkg_writes pd K) (set_default_field pd key dflt)"
  unfolding set_default_field_def
  by (intro steps_pkg_intros steps_pkg_setitem)

lemma steps_pkg_set_date_field:
  "key \<in> K \<Longrightarrow> steps (pkg_writes pd K) (set_date_field h dcat_dict pd src key)"
  unfolding set_date_field_def
  by (intro steps_pkg_intros steps_pkg_setitem)

lemma steps_pkg_set_default_license:
  "{''license_id'', ''custom_licence_text''} \<subseteq> K \<Longrightarrow>
   steps (pkg_writes pd K) (set_default_license harvest_config pd)"
  unfolding set_default_license_def
  by (intro steps_pkg_intros steps_pkg_setitem) auto

text \<open>Reads that have succeeded give the same after a step of \<open>pkg_writes\<close>.\<close>

lemma pkg_writes_getitem:
  assumes "pkg_writes pd K s s'" "wf_state s" "k \<notin> K" "py_getitem (heap s) v k = Inr x"
  shows "py_getitem (heap s') v k = Inr x"
proof (cases v)
  case (VRef a)
  with assms(4) obtain d where d: "heap s a = Some (ODict d)" "map_of d k = Some x"
    by (auto split: option.splits obj.splits)
  with assms(2) have lt: "a < nxt s" by (simp add: wf_allocated)
  show ?thesis
  proof (cases "pd = VRef a")
    case True
    with assms(1,2) lt have "same_fields K (heap s a) (heap s' a)"
      by (simp add: pkg_writes_def)
    with d assms(3) VRef show ?thesis by (auto simp: same_fields_def)
  next
    case False
    with assms(1,2) lt have "heap s' a = heap s a" by (simp add: pkg_writes_def)
    with d VRef show ?thesis by simp
  qed
qed (use assms(4) in simp_all)

lemma filter_key_cong:
  "filter_key H key xs = Inr found \<Longrightarrow>
   (\<And>x k. x \<in> set xs \<Longrightarrow> py_getitem H x ''key'' = Inr k \<Longrightarrow> py_getitem H' x ''key'' = Inr k) \<Longrightarrow>
   filter_key H' key xs = Inr found"
proof (induction xs arbitrary: found)
  case Nil
  then show ?case by simp
next
  case (Cons x xs)
  from Cons.prems(1) obtain k f where k: "py_getitem H x ''key'' = Inr k"
    and f: "filter_key H key xs = Inr f" and found: "found = (if k = VStr key then x # f else f)"
    by (auto split: sum.splits)
  from Cons.prems(2) [OF _ k] have k': "py_getitem H' x ''key'' = Inr k" by simp
  from Cons.IH [OF f] Cons.prems(2) have "filter_key H' key xs = Inr f" by simp
  with k' found show ?case by simp
qed

lemma filter_key_strings:
  "filter_key H key (map (\<lambda>kv. VStr (f kv)) d) = Inr found \<Longrightarrow> d = []"
  by (cases d) (auto split: sum.splits)

lemma pkg_writes_extras:
  assumes pw: "pkg_writes pd K s s'" and wf: "wf_state s"
    and K: "''extras'' \<notin> K" "''key'' \<notin> K"
    and ex: "extras_with_key (heap s) pd key = Inr found"
  shows "extras_with_key (heap s') pd key = Inr found"
proof -
  from ex obtain e xs where e: "py_getitem (heap s) pd ''extras'' = Inr e"
    and xs: "py_iter (heap s) e = Inr xs" and f: "filter_key (heap s) key xs = Inr found"
    by (auto simp: extras_with_key_def split: sum.splits)
  from pkg_writes_getitem [OF pw wf K(1) e] have e': "py_getitem (heap s') pd ''extras'' = Inr e" .
  have xs': "py_iter (heap s') e = Inr xs"
  proof (cases e)
    case (VRef a)
    with xs obtain ob where ob: "heap s a = Some ob" by (auto split: option.splits)
    with wf have lt: "a < nxt s" by (simp add: wf_allocated)
    show ?thesis
    proof (cases "pd = VRef a")
      case True
      with e obtain d where d: "heap s a = Some (ODict d)" "map_of d ''extras'' = Some e"
        by (auto split: option.splits obj.splits)
      with xs VRef have "xs = map (\<lambda>kv. VStr (fst kv)) d" by simp
      with f have "d = []" by (auto dest: filter_key_strings)
      with d show ?thesis by simp
    next
      case False
      with pw wf lt have "heap s' a = heap s a" by (simp add: pkg_writes_def)
      with xs VRef show ?thesis by simp
    qed
  qed (use xs in simp_all)
  have "filter_key (heap s') key xs = Inr found"
    using f pkg_writes_getitem [OF pw wf K(2)] by (rule filter_key_cong)
  with e' xs' show ?thesis by (simp add: extras_with_key_def)
qed

lemma ensures_bind:
  assumes "ensures P m Q" "\<And>x. ensures Q (f x) R"
  shows "ensures P (py_bind m f) R"
  unfolding ensures_def
proof (intro allI impI)
  fix s y s'
  assume P: "P s" and run: "py_bind m f s = (Inr y, s')"
  then obtain x s1 where m: "m s = (Inr x, s1)" and f: "f x s1 = (Inr y, s')"
    by (auto simp: py_bind_def split: prod.splits sum.splits)
  from assms(1) P m have "Q s1" by (auto simp: ensures_def)
  with assms(2) [of x] f show "R s'" by (auto simp: ensures_def)
qed

lemma ensures_weaken:
  "ensures P m Q \<Longrightarrow> (\<And>s. P' s \<Longrightarrow> P s) \<Longrightarrow> (\<And>s. Q s \<Longrightarrow> Q' s) \<Longrightarrow> ensures P' m Q'"
  unfolding ensures_def by blast

lemma stable_conj: "stable pd K P \<Longrightarrow> stable pd K Q \<Longrightarrow> stable pd K (\<lambda>s. P s \<and> Q s)"
  unfolding stable_def by blast

lemma stable_True: "stable pd K (\<lambda>s. True)"
  by (simp add: stable_def)

lemma stable_field_settled:
  assumes "''extras'' \<notin> K" "''key'' \<notin> K" "key \<notin> K"
  shows "stable pd K (field_settled pd key dflt)"
  unfolding stable_def field_settled_def
proof (intro allI impI)
  fix s s'
  assume wf: "wf_state s" and pw: "pkg_writes pd K s s'"
    and "\<exists>found. extras_with_key (heap s) pd key = Inr found \<and>
        (found = [] \<longrightarrow> py_getitem (heap s) pd key = Inr (VStr dflt))"
  then obtain found where f: "extras_with_key (heap s) pd key = Inr found"
    "found = [] \<longrightarrow> py_getitem (heap s) pd key = Inr (VStr dflt)" by blast
  from pkg_writes_extras [OF pw wf assms(1,2) f(1)] f(2) pkg_writes_getitem [OF pw wf assms(3)]
  show "\<exists>found. extras_with_key (heap s') pd key = Inr found \<and>
        (found = [] \<longrightarrow> py_getitem (heap s') pd key = Inr (VStr dflt))" by blast
qed

lemma steps_ensures:
  assumes "steps (pkg_writes pd K) m" "stable pd K Q"
  shows "ensures (\<lambda>s. wf_state s \<and> Q s) m (\<lambda>s. wf_state s \<and> Q s)"
  unfolding ensures_def
proof (intro allI impI)
  fix s x s'
  assume P: "wf_state s \<and> Q s" and run: "m s = (Inr x, s')"
  from assms(1) run have pw: "pkg_writes pd K s s'"
    by (auto simp: steps_def dest: spec [of _ s])
  with P have "wf_state s'" by (simp add: pkg_writes_def)
  moreover from assms(2) P pw have "Q s'" by (auto simp: stable_def)
  ultimately show "wf_state s' \<and> Q s'" ..
qed

lemma py_setitem_getitem:
  "py_setitem pd k x s = (Inr (), s') \<Longrightarrow> py_getitem (heap s') pd k = Inr x"
  by (cases pd) (auto simp: py_raise_def map_of_dict_set split: option.splits obj.splits)

lemma set_default_field_settles:
  assumes "stable pd {key} Q" "''extras'' \<noteq> key" "''key'' \<noteq> key"
  shows "ensures (\<lambda>s. wf_state s \<and> Q s) (set_default_field pd key dflt)
           (\<lambda>s. wf_state s \<and> (Q s \<and> field_settled pd key dflt s))"
  unfolding ensures_def
proof (intro allI impI)
  fix s x s'
  assume P: "wf_state s \<and> Q s" and run: "set_default_field pd key dflt s = (Inr x, s')"
  have st: "steps (pkg_writes pd {key}) (set_default_field pd key dflt)"
    by (simp add: steps_pkg_set_default_field)
  with run have pw: "pkg_writes pd {key} s s'" by (auto simp: steps_def dest: spec [of _ s])
  with P have wf': "wf_state s'" by (simp add: pkg_writes_def)
  from assms(1) P pw have Q': "Q s'" by (auto simp: stable_def)
  from run obtain found where f: "extras_with_key (heap s) pd key = Inr found"
    by (cases "extras_with_key (heap s) pd key")
      (auto simp: set_default_field_def py_bind_def py_read_def)
  from P have wf: "wf_state s" ..
  have f': "extras_with_key (heap s') pd key = Inr found"
    using pkg_writes_extras [OF pw wf _ _ f] assms(2,3) by simp
  have "found = [] \<longrightarrow> py_getitem (heap s') pd key = Inr (VStr dflt)"
  proof
    assume "found = []"
    with run f have "py_setitem pd key (VStr dflt) s = (Inr (), s')"
      by (simp add: set_default_field_def py_bind_def py_read_def)
    then show "py_getitem (heap s') pd key = Inr (VStr dflt)" by (rule py_setitem_getitem)
  qed
  with f' have "field_settled pd key dflt s'" by (auto simp: field_settled_def)
  with wf' Q' show "wf_state s' \<and> (Q s' \<and> field_settled pd key dflt s')" by simp
qed

lemma set_required_fields_defaults_settles:
  "ensures wf_state (set_required_fields_defaults h harvest_config dcat_dict pd)
     (\<lambda>s. wf_state s \<and> (\<forall>(key, dflt) \<in> set required_defaults. field_settled pd key dflt s))"
proof -
  let ?Q0 = "\<lambda>s::state. True"
  let ?Q1 = "\<lambda>s. ?Q0 s \<and> field_settled pd ''personal_information'' ''no'' s"
  let ?Q2 = "\<lambda>s. ?Q1 s \<and> field_settled pd ''access'' ''yes'' s"
  let ?Q3 = "\<lambda>s. ?Q2 s \<and> field_settled pd ''protective_marking'' ''official'' s"
  let ?Q4 = "\<lambda>s. ?Q3 s \<and> field_settled pd ''update_frequency'' ''unknown'' s"
  let ?Q5 = "\<lambda>s. ?Q4 s \<and> field_settled pd ''organization_visibility'' ''current'' s"
  let ?Q6 = "\<lambda>s. ?Q5 s \<and> field_settled pd ''workflow_status'' ''draft'' s"
  have st: "stable pd K (field_settled pd key dflt)"
    if "''extras'' \<notin> K" "''key'' \<notin> K" "key \<notin> K" for K key dflt
    using that by (rule stable_field_settled)
  note sts = stable_conj stable_True st
  have 1: "ensures (\<lambda>s. wf_state s \<and> ?Q0 s) (set_default_field pd ''personal_information'' ''no'')
      (\<lambda>s. wf_state s \<and> ?Q1 s)"
    by (rule set_default_field_settles; (intro sts)?; simp)
  have 2: "ensures (\<lambda>s. wf_state s \<and> ?Q1 s) (set_default_field pd ''access'' ''yes'')
      (\<lambda>s. wf_state s \<and> ?Q2 s)"
    by (rule set_default_field_settles; (intro sts)?; simp)
  have 3: "ensures (\<lambda>s. wf_state s \<and> ?Q2 s)
      (set_default_field pd ''protective_marking'' ''official'') (\<lambda>s. wf_state s \<and> ?Q3 s)"
    by (rule set_default_field_settles; (intro sts)?; simp)
  have 4: "ensures (\<lambda>s. wf_state s \<and> ?Q3 s)
      (set_default_field pd ''update_frequency'' ''unknown'') (\<lambda>s. wf_state s \<and> ?Q4 s)"
    by (rule set_default_field_settles; (intro sts)?; simp)
  have 5: "ensures (\<lambda>s. wf_state s \<and> ?Q4 s)
      (set_default_field pd ''organization_visibility'' ''current'') (\<lambda>s. wf_state s \<and> ?Q5 s)"
    by (rule set_default_field_settles; (intro sts)?; simp)
  have 6: "ensures (\<lambda>s. wf_state s \<and> ?Q5 s)
      (set_default_field pd ''workflow_status'' ''draft'') (\<lambda>s. wf_state s \<and> ?Q6 s)"
    by (rule set_default_field_settles; (intro sts)?; simp)
  have rest: "ensures (\<lambda>s. wf_state s \<and> ?Q6 s) m (\<lambda>s. wf_state s \<and> ?Q6 s)"
    if "steps (pkg_writes pd other_keys) m" for m :: "unit py"
    using that
    by (rule steps_ensures) (intro sts; simp add: other_keys_def)
  have "ensures (\<lambda>s. wf_state s \<and> ?Q0 s)
      (set_required_fields_defaults h harvest_config dcat_dict pd) (\<lambda>s. wf_state s \<and> ?Q6 s)"
    unfolding set_required_fields_defaults_def
    apply (rule ensures_bind [OF 1])
    apply (rule ensures_bind [OF 2]) 
    apply (rule ensures_bind [OF 3]) 
    apply (rule ensures_bind [OF 4]) 
    apply (rule ensures_bind [OF 5]) 
    apply (rule ensures_bind [OF 6]) 
    apply (rule rest)
    apply (intro steps_pkg_intros steps_pkg_setitem steps_pkg_set_date_field
        steps_pkg_set_default_license)
    apply (simp_all add: other_keys_def)
    done
  then show ?thesis
    by (rule ensures_weaken) (simp_all add: required_defaults_def)
qed

subsection \<open>Well-formedness is kept\<close>

lemma wf_rel_refl: "reflp wf_rel"
  by (rule reflpI) (simp add: wf_rel_def)

lemma wf_rel_trans: "transp wf_rel"
  by (rule transpI) (auto simp: wf_rel_def)

lemma steps_wf_new: "steps wf_rel (py_new ob)"
  by (auto simp: steps_def wf_rel_def py_new_def wf_state_def)

lemma steps_wf_log: "steps wf_rel (log_error msg)"
  by (auto simp: steps_def wf_rel_def log_error_def wf_state_def)

lemma steps_wf_setitem: "steps wf_rel (py_setitem v k x)"
  by (cases v)
    (auto simp: steps_def wf_rel_def wf_state_def py_raise_def split: option.splits obj.splits)

lemma steps_wf_extend: "steps wf_rel (py_extend v xs)"
  by (cases v)
    (auto simp: steps_def wf_rel_def wf_state_def py_raise_def split: option.splits obj.splits)

lemma alloc_wf:
  "wf_state s \<Longrightarrow> wf_state (snd (alloc j s)) \<and> nxt s \<le> nxt (snd (alloc j s))"
  "wf_state s \<Longrightarrow> wf_state (snd (alloc_list js s)) \<and> nxt s \<le> nxt (snd (alloc_list js s))"
  "wf_state s \<Longrightarrow> wf_state (snd (alloc_dict d s)) \<and> nxt s \<le> nxt (snd (alloc_dict d s))"
proof (induction j s and js s and d s rule: alloc_alloc_list_alloc_dict.induct)
  case (5 xs s)
  then show ?case by (auto simp: wf_state_def split: prod.splits)
next
  case (6 d s)
  then show ?case by (auto simp: wf_state_def split: prod.splits)
next
  case (8 x xs s)
  then show ?case by (fastforce split: prod.splits)
next
  case (10 kx d s)
  then show ?case by (fastforce split: prod.splits)
qed simp_all

lemma steps_wf_alloc: "steps wf_rel (py_alloc j)"
  unfolding steps_def wf_rel_def
proof (intro allI impI)
  fix s
  assume "wf_state s"
  from alloc_wf(1) [OF this, of j]
  show "wf_state (snd (py_alloc j s)) \<and> nxt s \<le> nxt (snd (py_alloc j s))"
    by (cases "alloc j s") (simp add: py_alloc_def)
qed

lemmas steps_wf_intros =
  steps_bind [OF wf_rel_trans] steps_pure [OF wf_rel_refl]
  steps_wf_new steps_wf_log steps_wf_setitem steps_wf_extend steps_wf_alloc steps_if

lemma steps_wf_fix_tags: "steps wf_rel (fix_tags ts)"
proof (induction ts)
  case Nil
  show ?case by (simp add: steps_wf_intros)
next
  case (Cons t ts)
  have "steps wf_rel (fix_tag t)"
    unfolding fix_tag_def
    by (intro steps_wf_intros) (auto split: val.splits intro: steps_wf_intros)
  with Cons show ?case by (auto intro: steps_wf_intros)
qed

lemma steps_wf_fix_erroneous_tags: "steps wf_rel (fix_erroneous_tags pd)"
  unfolding fix_erroneous_tags_def
  by (intro steps_wf_intros steps_wf_fix_tags)

lemma steps_wf_generate_extract: "steps wf_rel (generate_extract h soup)"
  unfolding generate_extract_def
  by (auto split: sum.splits option.splits intro!: steps_wf_intros)

lemma steps_wf_set_description_and_extract:
  "steps wf_rel (set_description_and_extract h pd soup)"
  unfolding set_description_and_extract_def
  by (intro steps_wf_intros steps_wf_generate_extract)

lemma steps_wf_set_full_metadata_url:
  "steps wf_rel (set_full_metadata_url_and_update_frequency h hc pd soup)"
  unfolding set_full_metadata_url_and_update_frequency_def
  by (intro steps_wf_intros)

lemma steps_wf_set_default_group: "steps wf_rel (set_default_group hc pd)"
  unfolding set_default_group_def
  by (intro steps_wf_intros)

lemma steps_wf_load_harvest_config: "steps wf_rel (load_harvest_config h ho)"
  unfolding load_harvest_config_def
  by (auto split: sum.splits intro!: steps_wf_intros)

lemma py_bind_InrE:
  assumes "py_bind m f s = (Inr y, s')"
  obtains x s1 where "m s = (Inr x, s1)" "f x s1 = (Inr y, s')"
  using assms by (auto simp: py_bind_def split: prod.splits sum.splits)

lemma steps_wfD: "steps wf_rel m \<Longrightarrow> m s = (r, s1) \<Longrightarrow> wf_state s \<Longrightarrow> wf_state s1"
  by (auto simp: steps_def wf_rel_def dest: spec [of _ s])

lemma field_settled_absent:
  "field_settled pd key dflt s \<Longrightarrow>
   (\<exists>found. extras_with_key (heap s) pd key = Inr found) \<and>
   (extras_with_key (heap s) pd key = Inr [] \<longrightarrow> py_getitem (heap s) pd key = Inr (VStr dflt))"
  by (auto simp: field_settled_def)

text \<open>
  C1. After a conversion that returns, from a well-formed store, each of the six required
  fields is settled: the extras of the dictionary with the field's key can be listed, and
  when there are none the dictionary has the field with its default.
\<close>

theorem required_fields_populated:
  assumes wf: "wf_state s"
    and run: "get_package_dict h harvest_object s = (Inr (package_dict, dcat_dict), s')"
  shows "\<forall>(key, dflt) \<in> set required_defaults.
           (\<exists>found. extras_with_key (heap s') package_dict key = Inr found) \<and>
           (extras_with_key (heap s') package_dict key = Inr [] \<longrightarrow>
              py_getitem (heap s') package_dict key = Inr (VStr dflt))"
proof -
  from run obtain dcat_tree where t: "json_loads h (content harvest_object) = Inr dcat_tree"
    by (cases "json_loads h (content harvest_object)")
      (simp_all add: get_package_dict_def py_raise_def)
  note r0 = run [unfolded get_package_dict_def t sum.case]
  from r0 show ?thesis
  proof (elim py_bind_InrE)
    fix dd s1 pt s2 pd s3 hc s4 nts s5 soup s6 soup' s7 s8 s9 s10 s11
      and u8 u9 u10 u11 :: unit
    assume a1: "py_alloc dcat_tree s = (Inr dd, s1)"
      and a2: "py_call (dcat_to_ckan h dcat_tree) s1 = (Inr pt, s2)"
      and a3: "py_alloc pt s2 = (Inr pd, s3)"
      and a4: "load_harvest_config h harvest_object s3 = (Inr hc, s4)"
      and a5: "py_read (\<lambda>H. py_getitem H pd ''notes'') s4 = (Inr nts, s5)"
      and a6: "py_call (BeautifulSoup h nts) s5 = (Inr soup, s6)"
      and a7: "set_description_and_extract h pd soup s6 = (Inr soup', s7)"
      and a8: "set_full_metadata_url_and_update_frequency h hc pd soup' s7 = (Inr u8, s8)"
      and a9: "fix_erroneous_tags pd s8 = (Inr u9, s9)"
      and a10: "set_default_group hc pd s9 = (Inr u10, s10)"
      and a11: "set_required_fields_defaults h hc dd pd s10 = (Inr u11, s11)"
      and r11: "py_return (pd, dd) s11 = (Inr (package_dict, dcat_dict), s')"
    from r11 have eq: "package_dict = pd" "s' = s11" by (simp_all add: py_return_def)
    note p = steps_pure [OF wf_rel_refl]
    have "wf_state s1" by (rule steps_wfD [of "py_alloc dcat_tree", OF steps_wf_alloc a1 wf])
    then have "wf_state s2"
      by (rule steps_wfD [of "py_call (dcat_to_ckan h dcat_tree)", OF p(4) a2])
    then have "wf_state s3" by (rule steps_wfD [of "py_alloc pt", OF steps_wf_alloc a3])
    then have "wf_state s4"
      by (rule steps_wfD [of "load_harvest_config h harvest_object",
            OF steps_wf_load_harvest_config a4])
    then have "wf_state s5"
      by (rule steps_wfD [of "py_read (\<lambda>H. py_getitem H pd ''notes'')", OF p(3) a5])
    then have "wf_state s6"
      by (rule steps_wfD [of "py_call (BeautifulSoup h nts)", OF p(4) a6])
    then have "wf_state s7"
      by (rule steps_wfD [of "set_description_and_extract h pd soup",
            OF steps_wf_set_description_and_extract a7])
    then have "wf_state s8"
      by (rule steps_wfD [of "set_full_metadata_url_and_update_frequency h hc pd soup'",
            OF steps_wf_set_full_metadata_url a8])
    then have "wf_state s9"
      by (rule steps_wfD [of "fix_erroneous_tags pd", OF steps_wf_fix_erroneous_tags a9])
    then have "wf_state s10"
      by (rule steps_wfD [of "set_default_group hc pd", OF steps_wf_set_default_group a10])
    with set_required_fields_defaults_settles [of h hc dd pd] a11
    have "\<forall>(key, dflt) \<in> set required_defaults. field_settled pd key dflt s11"
      by (auto simp: ensures_def)
    then show ?thesis unfolding eq by (auto dest: field_settled_absent)
  qed
qed

text \<open>Evaluation of the model on a given state: the continuation of a bind is left alone
  until the first part has run.\<close>

lemma py_bind_weak_cong: "m = m' \<Longrightarrow> s = s' \<Longrightarrow> py_bind m f s = py_bind m' f s'"
  by simp

lemmas eval_defs =
  get_package_dict_def load_harvest_config_def set_description_and_extract_def
  generate_extract_def set_full_metadata_url_and_update_frequency_def
  fix_erroneous_tags_def fix_tag_def set_default_group_def set_required_fields_defaults_def
  set_default_field_def set_date_field_def set_default_license_def extras_with_key_def
  py_bind_def py_read_def py_call_def py_return_def py_raise_def py_new_def py_alloc_def
  log_error_def
  example_harvest_host_def example_harvest_object_def example_harvest_loads_def
  example_content_def example_dcat_to_ckan_def empty_state_def example_loads_def

lemmas eval_congs =
  py_bind_weak_cong sum.case_cong_weak prod.case_cong_weak if_weak_cong
  option.case_cong_weak obj.case_cong_weak val.case_cong_weak

lemma example_conversion:
  "(case get_package_dict example_harvest_host example_harvest_object empty_state of
      (r, S) \<Rightarrow> r = Inr (VRef 7, VRef 1) \<and>
        extras_with_key (heap S) (VRef 7) ''access'' = Inr [])"
  by (simp add: eval_defs cong: eval_congs)

theorem required_fields_populated_witness:
  "wf_state empty_state \<and>
   fst (get_package_dict example_harvest_host example_harvest_object empty_state) =
     Inr (VRef 7, VRef 1) \<and>
   py_getitem
     (heap (snd (get_package_dict example_harvest_host example_harvest_object empty_state)))
     (VRef 7) ''access'' = Inr (VStr ''yes'')"
proof -
  define S where
    "S = snd (get_package_dict example_harvest_host example_harvest_object empty_state)"
  have wf: "wf_state empty_state" by (simp add: wf_state_def empty_state_def)
  from example_conversion
  have run: "get_package_dict example_harvest_host example_harvest_object empty_state =
      (Inr (VRef 7, VRef 1), S)"
    and ex: "extras_with_key (heap S) (VRef 7) ''access'' = Inr []"
    by (simp_all add: S_def split: prod.splits)
  have "(''access'', ''yes'') \<in> set required_defaults" by (simp add: required_defaults_def)
  with required_fields_populated [OF wf run]
  have "extras_with_key (heap S) (VRef 7) ''access'' = Inr [] \<longrightarrow>
      py_getitem (heap S) (VRef 7) ''access'' = Inr (VStr ''yes'')" by blast
  with ex have g: "py_getitem (heap S) (VRef 7) ''access'' = Inr (VStr ''yes'')" by blast
  from run have f: "fst (get_package_dict example_harvest_host example_harvest_object
      empty_state) = Inr (VRef 7, VRef 1)" by (simp only: fst_conv)
  from wf f g show ?thesis unfolding S_def by (intro conjI)
qed

end
